theory Spec2Isabelle
  imports Main "HOL-Library.Word"
begin

unbundle bit_operations_syntax

section \<open>Cryologger GVMS: the acquisition-to-storage pipeline and its duty cycle\<close>

text \<open>
  The development embeds two sketches of the repository:
  \<^item> the OpenLog Artemis logger: \<open>storeData\<close> (storeData.ino) and the tail of
    \<open>loop\<close> of its main sketch;
  \<^item> the MicroMod logger: the alarm functions of 01_rtc.ino and the watchdog interrupt
    handler of cryologger_gvms_micromod.ino.
  Bytes are \<open>8 word\<close>; \<open>char\<close> is unsigned on the ARM target, so a \<open>char\<close> of
  \<open>UBXbuffer\<close> converts to a wider unsigned type by zero extension (\<open>ucast\<close>).
  A handler that enters \<open>while (1);\<close> does not return: its result is \<open>Hangs\<close>,
  carrying the machine state at the moment the loop is entered.
\<close>

type_synonym byte = "8 word"

datatype 'a outcome = Returns 'a | Hangs 'a

definition state_of :: "'a outcome \<Rightarrow> 'a" where
  "state_of r = (case r of Returns s \<Rightarrow> s | Hangs s \<Rightarrow> s)"

subsection \<open>The staging buffer\<close>

text \<open>
  Modelled from the spec: \<open>RingBufferN\<close> is the Arduino core's class, not code of the
  repository. It is the spec's bounded FIFO of bytes: a buffer that is full accepts no
  further byte, and a byte that does not fit is lost. \<open>storeData\<close> calls
  \<open>store_char\<close> as a statement, so it uses no result of the call. \<open>read_char\<close>
  removes the oldest byte (and yields \<open>-1\<close>, that is \<open>0xFF\<close> once narrowed to
  \<open>uint8_t\<close>, on an empty buffer), \<open>available\<close> counts the stored bytes. The
  number of bytes the buffer holds is a field, so that nothing depends on whether
  \<open>RingBufferN<24576>\<close> keeps one slot free.
\<close>

record ring_buffer =
  rb_data :: "byte list"
  rb_capacity :: nat

definition available :: "ring_buffer \<Rightarrow> nat" where
  "available rb = length (rb_data rb)"

definition availableForStore :: "ring_buffer \<Rightarrow> nat" where
  "availableForStore rb = rb_capacity rb - length (rb_data rb)"

definition store_char :: "byte \<Rightarrow> ring_buffer \<Rightarrow> ring_buffer" where
  "store_char c rb =
     (if length (rb_data rb) < rb_capacity rb then rb\<lparr>rb_data := rb_data rb @ [c]\<rparr> else rb)"

definition read_char :: "ring_buffer \<Rightarrow> byte \<times> ring_buffer" where
  "read_char rb =
     (case rb_data rb of
        [] \<Rightarrow> (0xFF, rb)
      | c # cs \<Rightarrow> (c, rb\<lparr>rb_data := cs\<rparr>))"

subsection \<open>The frame parser\<close>

text \<open>
  Modelled from the spec: the enumeration of parser states is declared in another file
  of the sketch, which is not at hand. \<open>storeData\<close> names
  \<open>PARSE_UBX_SYNC_CHAR_1\<close>, \<open>SYNC_LOST\<close> and \<open>FRAME_VALID\<close>; the other stages
  are the spec's (sync byte 2, class, id, length-low, length-high, payload, two checksum
  bytes).
\<close>

datatype ParseUbxStates =
    PARSE_UBX_SYNC_CHAR_1
  | PARSE_UBX_SYNC_CHAR_2
  | PARSE_UBX_CLASS
  | PARSE_UBX_ID
  | PARSE_UBX_LENGTH_LSB
  | PARSE_UBX_LENGTH_MSB
  | PARSE_UBX_PAYLOAD
  | PARSE_UBX_CHECKSUM_A
  | PARSE_UBX_CHECKSUM_B
  | SYNC_LOST
  | FRAME_VALID

text \<open>
  \<open>storeData\<close> is embedded over an arbitrary parser: \<open>processUbx\<close> is a parameter
  \<open>P\<close> that maps the incoming byte, \<open>parseUbxState\<close> and the parser's private
  variables to their new values. The theorems about \<open>storeData\<close> hold for every
  \<open>P\<close>.
\<close>

text \<open>
  Modelled from the spec: \<open>processUbx\<close> is defined in the same missing file. The
  function below follows the stages of the spec's FrameParser, for the u-blox UBX wire
  format the comments of \<open>storeData\<close> name (sync bytes \<open>0xB5 0x62\<close>, little-endian
  payload length, 8-bit Fletcher checksum over class, id, length and payload); a byte
  that does not match the current stage, or a checksum mismatch, gives \<open>SYNC_LOST\<close>.
  It serves to run the pipeline on concrete frames.
\<close>

record ubx_private =
  ubx_length :: nat
  ubx_count :: nat
  ubx_ck_a :: byte
  ubx_ck_b :: byte

definition ubx_checksum :: "byte \<Rightarrow> ubx_private \<Rightarrow> ubx_private" where
  "ubx_checksum c p =
     p\<lparr>ubx_ck_a := ubx_ck_a p + c, ubx_ck_b := ubx_ck_b p + (ubx_ck_a p + c)\<rparr>"

fun processUbx :: "byte \<Rightarrow> ParseUbxStates \<times> ubx_private \<Rightarrow> ParseUbxStates \<times> ubx_private" where
  "processUbx c (PARSE_UBX_SYNC_CHAR_1, p) =
     (if c = 0xB5 then (PARSE_UBX_SYNC_CHAR_2, p) else (SYNC_LOST, p))"
| "processUbx c (PARSE_UBX_SYNC_CHAR_2, p) =
     (if c = 0x62
      then (PARSE_UBX_CLASS, p\<lparr>ubx_length := 0, ubx_count := 0, ubx_ck_a := 0, ubx_ck_b := 0\<rparr>)
      else (SYNC_LOST, p))"
| "processUbx c (PARSE_UBX_CLASS, p) = (PARSE_UBX_ID, ubx_checksum c p)"
| "processUbx c (PARSE_UBX_ID, p) = (PARSE_UBX_LENGTH_LSB, ubx_checksum c p)"
| "processUbx c (PARSE_UBX_LENGTH_LSB, p) =
     (PARSE_UBX_LENGTH_MSB, ubx_checksum c (p\<lparr>ubx_length := unat c\<rparr>))"
| "processUbx c (PARSE_UBX_LENGTH_MSB, p) =
     (let p' = ubx_checksum c (p\<lparr>ubx_length := ubx_length p + 256 * unat c\<rparr>)
      in if ubx_length p' = 0 then (PARSE_UBX_CHECKSUM_A, p') else (PARSE_UBX_PAYLOAD, p'))"
| "processUbx c (PARSE_UBX_PAYLOAD, p) =
     (let p' = ubx_checksum c (p\<lparr>ubx_count := ubx_count p + 1\<rparr>)
      in if ubx_count p' = ubx_length p' then (PARSE_UBX_CHECKSUM_A, p') else (PARSE_UBX_PAYLOAD, p'))"
| "processUbx c (PARSE_UBX_CHECKSUM_A, p) =
     (if c = ubx_ck_a p then (PARSE_UBX_CHECKSUM_B, p) else (SYNC_LOST, p))"
| "processUbx c (PARSE_UBX_CHECKSUM_B, p) =
     (if c = ubx_ck_b p then (FRAME_VALID, p) else (SYNC_LOST, p))"
| "processUbx c (SYNC_LOST, p) = (SYNC_LOST, p)"
| "processUbx c (FRAME_VALID, p) = (FRAME_VALID, p)"

subsection \<open>The state of \<open>storeData\<close>\<close>

text \<open>
  The globals \<open>storeData\<close> reads and writes. The two collaborators it drives are kept
  as the lists of calls made to them: \<open>rtc_calls\<close> for \<open>rtc.setTime\<close> and
  \<open>file_calls\<close> for \<open>file.write\<close> and \<open>file.sync\<close>. The fixed arrays
  \<open>UBXbuffer[4096]\<close> and \<open>SDbuffer[512]\<close> are functions from the index; the code
  indexes them below their sizes as long as \<open>UBXpointer < UBXbufferSize\<close> and
  \<open>SDpointer < SDpacket\<close> hold on entry, which every run from the initial state keeps.
  The last four fields are the globals and settings the tail of \<open>loop\<close> uses.
  The frame-rate statistics (\<open>lastRAWXmicros1\<close> and the like, and their debug prints)
  feed nothing but serial output and are left out, as are the status LED writes.
\<close>

datatype rtc_call = SetTime byte byte byte byte byte byte int

datatype file_call = FileWrite "byte list" | FileSync

record 'p logger =
  parseUbxState :: ParseUbxStates
  ubxPrivate :: 'p
  UBXbuffer :: "nat \<Rightarrow> byte"
  UBXpointer :: nat
  GNSSbuffer :: ring_buffer
  rtcSyncFlag :: bool
  rtcSyncRequiredFlag :: bool
  rtc_calls :: "rtc_call list"
  SDbuffer :: "nat \<Rightarrow> byte"
  SDpointer :: nat
  maxGNSSbufferAvailable :: int
  lastDataLogSyncTime :: "32 word"
  file_calls :: "file_call list"
  settings_logData :: bool
  online_microSd :: bool
  online_dataLogging :: bool
  alarmFlag :: bool
  measurementStartTime :: "64 word"
  settings_usSleepDuration :: "64 word"
  settings_usLoggingDuration :: "64 word"

text \<open>
  The sizes are those storeData.ino declares (lines 33 and 39). The class and message
  identifiers are constants of the u-blox library: the comments of \<open>storeData\<close> give
  \<open>0x01\<close> for the NAV class and \<open>0x21\<close> for TIMEUTC, and \<open>0x05\<close> is the ACK
  class of the UBX protocol.
\<close>

definition UBXbufferSize :: nat where
  "UBXbufferSize = 4096"

definition SDpacket :: nat where
  "SDpacket = 512"

definition UBX_CLASS_ACK :: byte where
  "UBX_CLASS_ACK = 0x05"

definition UBX_CLASS_NAV :: byte where
  "UBX_CLASS_NAV = 0x01"

definition UBX_NAV_TIMEUTC :: byte where
  "UBX_NAV_TIMEUTC = 0x21"

subsection \<open>The time extractor (storeData.ino, lines 289 to 323)\<close>

definition rtcYear :: "(nat \<Rightarrow> byte) \<Rightarrow> 16 word" where
  "rtcYear buf = ucast (buf 18) OR push_bit 8 (ucast (buf 19))"

definition nanos_unsigned32 :: "(nat \<Rightarrow> byte) \<Rightarrow> 32 word" where
  "nanos_unsigned32 buf =
     ucast (buf 14) OR push_bit 8 (ucast (buf 15)) OR push_bit 16 (ucast (buf 16))
       OR push_bit 24 (ucast (buf 17))"

definition centis :: "(nat \<Rightarrow> byte) \<Rightarrow> byte" where
  "centis buf =
     (let nanos = nanos_unsigned32 buf;
          nanos' = (if sint nanos < 0 then 0 else nanos)
      in ucast (nanos' div 10000000))"

definition syncRtc_from_frame :: "'p logger \<Rightarrow> 'p logger" where
  "syncRtc_from_frame s =
     (if UBXbuffer s 2 = UBX_CLASS_NAV then
        if UBXbuffer s 3 = UBX_NAV_TIMEUTC then
          if rtcSyncRequiredFlag s then
            if (UBXbuffer s 25 AND 0x04) = 0x04 \<and> rtcSyncRequiredFlag s then
              s\<lparr>rtc_calls := rtc_calls s @
                   [SetTime (UBXbuffer s 22) (UBXbuffer s 23) (UBXbuffer s 24) (centis (UBXbuffer s))
                      (UBXbuffer s 21) (UBXbuffer s 20) (uint (rtcYear (UBXbuffer s)) - 2000)],
                 rtcSyncFlag := True,
                 rtcSyncRequiredFlag := False\<rparr>
            else s
          else s
        else s
      else s)"

subsection \<open>One incoming byte (storeData.ino, lines 158 to 351)\<close>

text \<open>
  The body of the \<open>for\<close> loop, in the order of the code: \<open>processIncoming\<close> is the
  call of \<open>processUbx\<close> and the store into \<open>UBXbuffer\<close> (lines 158 to 163);
  \<open>storeByte\<close> adds the guard on \<open>UBXpointer\<close> (lines 164 to 169), whose
  \<open>while (1);\<close> never ends; \<open>classifyFrame\<close> is the \<open>if\<close> on \<open>parseUbxState\<close>
  (lines 171 to 351), with the copy loop of lines 326 to 330 as \<open>copy_frame\<close>.
  \<open>storeBytes\<close> runs the body over the bytes read in one call.
\<close>

fun copy_frame :: "byte list \<Rightarrow> ring_buffer \<Rightarrow> ring_buffer" where
  "copy_frame [] rb = rb"
| "copy_frame (c # cs) rb = copy_frame cs (store_char c rb)"

definition frame_bytes :: "'p logger \<Rightarrow> byte list" where
  "frame_bytes s = map (UBXbuffer s) [0..<UBXpointer s]"

definition processIncoming ::
  "(byte \<Rightarrow> ParseUbxStates \<times> 'p \<Rightarrow> ParseUbxStates \<times> 'p) \<Rightarrow> byte \<Rightarrow> 'p logger \<Rightarrow> 'p logger" where
  "processIncoming P incoming s =
     (let (st, p) = P incoming (parseUbxState s, ubxPrivate s)
      in s\<lparr>parseUbxState := st, ubxPrivate := p,
            UBXbuffer := (UBXbuffer s)(UBXpointer s := incoming),
            UBXpointer := UBXpointer s + 1\<rparr>)"

definition classifyFrame :: "'p logger \<Rightarrow> 'p logger" where
  "classifyFrame s =
     (if parseUbxState s = SYNC_LOST then
        s\<lparr>UBXpointer := 0, parseUbxState := PARSE_UBX_SYNC_CHAR_1\<rparr>
      else if parseUbxState s = FRAME_VALID then
        (let s' =
           (if UBXbuffer s 2 \<noteq> UBX_CLASS_ACK then
              (let t = syncRtc_from_frame s
               in t\<lparr>GNSSbuffer := copy_frame (frame_bytes t) (GNSSbuffer t)\<rparr>)
            else s)
         in s'\<lparr>UBXpointer := 0, parseUbxState := PARSE_UBX_SYNC_CHAR_1\<rparr>)
      else s)"

definition storeByte ::
  "(byte \<Rightarrow> ParseUbxStates \<times> 'p \<Rightarrow> ParseUbxStates \<times> 'p) \<Rightarrow> byte \<Rightarrow> 'p logger \<Rightarrow> 'p logger outcome" where
  "storeByte P incoming s =
     (let s1 = processIncoming P incoming s
      in if UBXpointer s1 = UBXbufferSize then Hangs s1 else Returns (classifyFrame s1))"

fun storeBytes ::
  "(byte \<Rightarrow> ParseUbxStates \<times> 'p \<Rightarrow> ParseUbxStates \<times> 'p) \<Rightarrow> byte list \<Rightarrow> 'p logger \<Rightarrow> 'p logger outcome" where
  "storeBytes P [] s = Returns s"
| "storeBytes P (b # bs) s =
     (case storeByte P b s of
        Hangs s' \<Rightarrow> Hangs s'
      | Returns s' \<Rightarrow> storeBytes P bs s')"

subsection \<open>Writing to the card (storeData.ino, lines 366 to 436)\<close>

text \<open>
  \<open>drainToSD\<close> is the \<open>while (keep_going)\<close> loop (lines 388 to 407), entered with
  \<open>bufAvail\<close> bytes to go: the first argument is \<open>bufAvail\<close>, and the loop is not
  entered when it is zero. It stops after the write of one block, or when \<open>bufAvail\<close>
  reaches zero. \<open>forceSync\<close> is the forced sync of lines 409 to 422, and
  \<open>discardAll\<close> the loop of lines 431 to 434.
\<close>

fun drainToSD :: "nat \<Rightarrow> 'p logger \<Rightarrow> 'p logger" where
  "drainToSD 0 s = s"
| "drainToSD (Suc bufAvail) s =
     (let (c, rb) = read_char (GNSSbuffer s);
          s1 = s\<lparr>GNSSbuffer := rb,
                 SDbuffer := (SDbuffer s)(SDpointer s := c),
                 SDpointer := SDpointer s + 1\<rparr>
      in if SDpointer s1 = SDpacket
         then s1\<lparr>SDpointer := 0,
                 file_calls := file_calls s1 @ [FileWrite (map (SDbuffer s1) [0..<SDpacket])]\<rparr>
         else drainToSD bufAvail s1)"

definition forceSync :: "32 word \<Rightarrow> 32 word \<Rightarrow> 'p logger \<Rightarrow> 'p logger" where
  "forceSync millis1 millis2 s =
     (if millis1 - lastDataLogSyncTime s > 500 then
        (let s1 = s\<lparr>lastDataLogSyncTime := millis2\<rparr>;
             s2 = (if SDpointer s1 > 0
                   then s1\<lparr>file_calls := file_calls s1 @ [FileWrite (map (SDbuffer s1) [0..<SDpointer s1])],
                           SDpointer := 0\<rparr>
                   else s1)
         in s2\<lparr>file_calls := file_calls s2 @ [FileSync]\<rparr>)
      else s)"

function discardAll :: "ring_buffer \<Rightarrow> ring_buffer" where
  "discardAll rb = (if available rb \<noteq> 0 then discardAll (snd (read_char rb)) else rb)"
  by pat_completeness auto
termination
  by (relation "measure (\<lambda>rb. length (rb_data rb))")
     (auto simp: available_def read_char_def split: list.splits)

declare discardAll.simps [simp del]

text \<open>
  \<open>millis1\<close> and \<open>millis2\<close> are the two readings of \<open>millis()\<close> the forced sync
  takes (lines 410 and 412), \<open>unsigned long\<close> values of 32 bits.
\<close>

definition sdWrite :: "32 word \<Rightarrow> 32 word \<Rightarrow> 'p logger \<Rightarrow> 'p logger" where
  "sdWrite millis1 millis2 s =
     (if settings_logData s \<and> online_microSd s \<and> online_dataLogging s then
        (let bufAvail = available (GNSSbuffer s);
             s1 = (if int bufAvail > maxGNSSbufferAvailable s
                   then s\<lparr>maxGNSSbufferAvailable := int bufAvail\<rparr> else s)
         in forceSync millis1 millis2 (drainToSD bufAvail s1))
      else s\<lparr>GNSSbuffer := discardAll (GNSSbuffer s)\<rparr>)"

text \<open>
  One call of \<open>storeData\<close>. The bus transactions of lines 77 to 157 and 354 to 361
  are the transport: what they contribute is the sequence \<open>incoming\<close> of bytes that
  \<open>qwiic.read()\<close> hands to the loop body during this call (empty when the receiver
  is offline, the poll is not due, the bus does not acknowledge or no byte is waiting).
\<close>

definition storeData ::
  "(byte \<Rightarrow> ParseUbxStates \<times> 'p \<Rightarrow> ParseUbxStates \<times> 'p) \<Rightarrow> byte list \<Rightarrow> 32 word \<Rightarrow> 32 word
     \<Rightarrow> 'p logger \<Rightarrow> 'p logger outcome" where
  "storeData P incoming millis1 millis2 s =
     (case storeBytes P incoming s of
        Hangs s' \<Rightarrow> Hangs s'
      | Returns s' \<Rightarrow> Returns (sdWrite millis1 millis2 s'))"

subsection \<open>The tail of \<open>loop\<close> of the OpenLog Artemis sketch (lines 224 to 244)\<close>

text \<open>
  \<open>openNewLogFile\<close> and \<open>goToSleep\<close> are defined in other files of the sketch and
  \<open>configureRtc\<close> only programs the clock: the three are parameters, arbitrary
  functions of the state. \<open>timeNow\<close> is the value \<open>rtcMillis()\<close> returns.
\<close>

definition loopAlarm ::
  "('p logger \<Rightarrow> 'p logger) \<Rightarrow> ('p logger \<Rightarrow> 'p logger) \<Rightarrow> 'p logger \<Rightarrow> 'p logger" where
  "loopAlarm openNewLogFile configureRtc s =
     (if alarmFlag s
      then (configureRtc (openNewLogFile s))\<lparr>alarmFlag := False, rtcSyncRequiredFlag := True\<rparr>
      else s)"

definition loopSleep :: "('p logger \<Rightarrow> 'p logger) \<Rightarrow> 64 word \<Rightarrow> 'p logger \<Rightarrow> 'p logger" where
  "loopSleep goToSleep timeNow s =
     (if settings_usSleepDuration s > 0
         \<and> timeNow > measurementStartTime s + settings_usLoggingDuration s div 1000
      then (let s1 = goToSleep s
            in s1\<lparr>measurementStartTime :=
                     measurementStartTime s1 + settings_usLoggingDuration s1 div 1000
                       + settings_usSleepDuration s1 div 1000,
                   rtcSyncRequiredFlag := True\<rparr>)
      else s)"

definition loopTail ::
  "('p logger \<Rightarrow> 'p logger) \<Rightarrow> ('p logger \<Rightarrow> 'p logger) \<Rightarrow> ('p logger \<Rightarrow> 'p logger) \<Rightarrow> 64 word
     \<Rightarrow> 'p logger \<Rightarrow> 'p logger" where
  "loopTail openNewLogFile configureRtc goToSleep timeNow s =
     loopSleep goToSleep timeNow (loopAlarm openNewLogFile configureRtc s)"

subsection \<open>The alarms of the MicroMod sketch (01_rtc.ino)\<close>

text \<open>
  Modelled from the spec: the RTC collaborator. The \<open>APM3_RTC\<close> object keeps the time
  fields that \<open>getTime\<close> last read and programs the alarm registers; the peripheral
  latches one alarm interrupt status bit (\<open>AM_HAL_RTC_INT_ALM\<close>) when the clock
  matches the alarm, and \<open>am_hal_rtc_int_clear\<close> clears that bit. The calls made to
  the peripheral are recorded in order in \<open>hal_calls\<close>.
\<close>

record rtc_fields =
  f_hour :: nat
  f_minute :: nat
  f_seconds :: nat
  f_hundredths :: nat
  f_dayOfMonth :: nat
  f_month :: nat

datatype hal_call =
    IntClear
  | SetAlarm rtc_fields
  | SetAlarmMode nat
  | GetTime
  | GetAlarm

record rtc_dev =
  rtc_now :: rtc_fields
  rtc_alarm :: rtc_fields
  rtc_alarmMode :: nat
  int_alm :: bool
  hal_calls :: "hal_call list"
  sleepAlarmMinutes :: nat
  sleepAlarmHours :: nat
  loggingAlarmHours :: nat
  loggingAlarmMinutes :: nat
  rtc_alarmFlag :: bool

definition am_hal_rtc_int_clear :: "rtc_dev \<Rightarrow> rtc_dev" where
  "am_hal_rtc_int_clear r = r\<lparr>int_alm := False, hal_calls := hal_calls r @ [IntClear]\<rparr>"

definition rtc_setAlarm :: "nat \<Rightarrow> nat \<Rightarrow> nat \<Rightarrow> nat \<Rightarrow> nat \<Rightarrow> nat \<Rightarrow> rtc_dev \<Rightarrow> rtc_dev" where
  "rtc_setAlarm h m sec hund d mon r =
     (let a = \<lparr>f_hour = h, f_minute = m, f_seconds = sec, f_hundredths = hund,
                f_dayOfMonth = d, f_month = mon\<rparr>
      in r\<lparr>rtc_alarm := a, hal_calls := hal_calls r @ [SetAlarm a]\<rparr>)"

definition rtc_setAlarmMode :: "nat \<Rightarrow> rtc_dev \<Rightarrow> rtc_dev" where
  "rtc_setAlarmMode m r = r\<lparr>rtc_alarmMode := m, hal_calls := hal_calls r @ [SetAlarmMode m]\<rparr>"

text \<open>
  \<open>printDateTime\<close> calls \<open>rtc.getTime()\<close>, which loads the clock's reading
  \<open>clk\<close> into the time fields; \<open>printAlarm\<close> calls \<open>rtc.getAlarm()\<close>.
\<close>

definition printDateTime :: "rtc_fields \<Rightarrow> rtc_dev \<Rightarrow> rtc_dev" where
  "printDateTime clk r = r\<lparr>rtc_now := clk, hal_calls := hal_calls r @ [GetTime]\<rparr>"

definition printAlarm :: "rtc_dev \<Rightarrow> rtc_dev" where
  "printAlarm r = r\<lparr>hal_calls := hal_calls r @ [GetAlarm]\<rparr>"

definition setSleepAlarm :: "rtc_fields \<Rightarrow> rtc_dev \<Rightarrow> rtc_dev" where
  "setSleepAlarm clk r =
     (let r1 = am_hal_rtc_int_clear r;
          r2 = rtc_setAlarm ((f_hour (rtc_now r1) + sleepAlarmHours r1) mod 24)
                 ((f_minute (rtc_now r1) + sleepAlarmMinutes r1) mod 60) 0 0
                 (f_dayOfMonth (rtc_now r1)) (f_month (rtc_now r1)) r1;
          r3 = rtc_setAlarmMode 5 r2
      in printAlarm (printDateTime clk r3))"

definition setLoggingAlarm :: "rtc_fields \<Rightarrow> rtc_dev \<Rightarrow> rtc_dev" where
  "setLoggingAlarm clk r =
     (let r1 = am_hal_rtc_int_clear r;
          r2 = rtc_setAlarm ((f_hour (rtc_now r1) + loggingAlarmHours r1) mod 24)
                 ((f_minute (rtc_now r1) + loggingAlarmMinutes r1) mod 60) 0 0
                 (f_dayOfMonth (rtc_now r1)) (f_month (rtc_now r1)) r1;
          r3 = rtc_setAlarmMode 5 r2
      in printAlarm (printDateTime clk r3))"

text \<open>
  Modelled from the spec: the peripheral and the interrupt controller, which are
  hardware. \<open>alarmMatch\<close> is the clock reaching the alarm's target time, which latches
  the status bit; \<open>serviceAlarm\<close> runs the handler \<open>am_rtc_isr\<close>
  (cryologger_gvms_micromod.ino, lines 238 to 246) for as long as the bit is latched, at
  most \<open>fuel\<close> times, and counts the runs.
\<close>

definition alarmMatch :: "rtc_dev \<Rightarrow> rtc_dev" where
  "alarmMatch r = r\<lparr>int_alm := True\<rparr>"

definition am_rtc_isr :: "rtc_dev \<Rightarrow> rtc_dev" where
  "am_rtc_isr r = (am_hal_rtc_int_clear r)\<lparr>rtc_alarmFlag := True\<rparr>"

fun serviceAlarm :: "nat \<Rightarrow> rtc_dev \<Rightarrow> nat \<times> rtc_dev" where
  "serviceAlarm 0 r = (0, r)"
| "serviceAlarm (Suc fuel) r =
     (if int_alm r
      then (let (n, r') = serviceAlarm fuel (am_rtc_isr r) in (Suc n, r'))
      else (0, r))"

subsection \<open>The watchdog handler of the MicroMod sketch (lines 249 to 269)\<close>

text \<open>
  The calls the handler makes on the watchdog and on the LED are recorded in order:
  \<open>wdt.clear()\<close>, \<open>wdt.restart()\<close>, \<open>wdt.stop()\<close> and
  \<open>digitalWrite(LED_BUILTIN, HIGH)\<close>. \<open>watchdogCounter\<close> is an \<open>int\<close>; the
  handler stops incrementing it at 10, far from its bounds.
\<close>

datatype wdt_call = WdtClear | WdtRestart | WdtStop | LedHigh

record watchdog =
  watchdogFlag :: bool
  watchdogCounter :: int
  wdt_calls :: "wdt_call list"

definition am_watchdog_isr :: "watchdog \<Rightarrow> watchdog outcome" where
  "am_watchdog_isr w =
     (let w1 = w\<lparr>wdt_calls := wdt_calls w @ [WdtClear]\<rparr>
      in if watchdogCounter w1 < 10
         then (let w2 = w1\<lparr>wdt_calls := wdt_calls w1 @ [WdtRestart]\<rparr>
               in Returns (w2\<lparr>watchdogFlag := True, watchdogCounter := watchdogCounter w2 + 1\<rparr>))
         else Hangs (w1\<lparr>wdt_calls := wdt_calls w1 @ [WdtStop, LedHigh]\<rparr>))"

text \<open>\<open>n\<close> consecutive watchdog interrupts; nothing runs after a handler that hangs.\<close>

fun watchdogInterrupts :: "nat \<Rightarrow> watchdog \<Rightarrow> watchdog outcome" where
  "watchdogInterrupts 0 w = Returns w"
| "watchdogInterrupts (Suc n) w =
     (case am_watchdog_isr w of
        Hangs w' \<Rightarrow> Hangs w'
      | Returns w' \<Rightarrow> watchdogInterrupts n w')"

subsection \<open>Abstractions and concrete states\<close>

text \<open>The bytes waiting in the block assembly buffer.\<close>

definition sd_pending :: "'p logger \<Rightarrow> byte list" where
  "sd_pending s = map (SDbuffer s) [0..<SDpointer s]"

text \<open>
  The globals as their declarations initialise them (storeData.ino, lines 28 to 43, and
  the main sketch, lines 93 to 107), with logging enabled and the card online, and
  the parser of the spec at its first stage.
\<close>

definition logger0 :: "ubx_private logger" where
  "logger0 =
     \<lparr>parseUbxState = PARSE_UBX_SYNC_CHAR_1,
      ubxPrivate = \<lparr>ubx_length = 0, ubx_count = 0, ubx_ck_a = 0, ubx_ck_b = 0\<rparr>,
      UBXbuffer = (\<lambda>i. 0),
      UBXpointer = 0,
      GNSSbuffer = \<lparr>rb_data = [], rb_capacity = 24576\<rparr>,
      rtcSyncFlag = False,
      rtcSyncRequiredFlag = True,
      rtc_calls = [],
      SDbuffer = (\<lambda>i. 0),
      SDpointer = 0,
      maxGNSSbufferAvailable = 0,
      lastDataLogSyncTime = 0,
      file_calls = [],
      settings_logData = True,
      online_microSd = True,
      online_dataLogging = True,
      alarmFlag = False,
      measurementStartTime = 0,
      settings_usSleepDuration = 0,
      settings_usLoggingDuration = 0\<rparr>"

text \<open>
  Two frames of the receiver: the acknowledgment UBX-ACK-ACK of a CFG-MSG command, and a
  UBX-NAV-TIMEUTC frame for 2021-03-10 12:34:56 whose nanosecond field is \<open>-2\<close> and
  whose validity byte is \<open>0x07\<close>. \<open>ack_pending\<close> and \<open>timeutc_pending\<close> are
  the states \<open>storeData\<close> is in when all but the last byte of the frame have been
  read from the initial state.
\<close>

definition ack_frame :: "byte list" where
  "ack_frame = [0xB5, 0x62, 0x05, 0x01, 0x02, 0x00, 0x06, 0x01, 0x0F, 0x38]"

definition ack_pending :: "ubx_private logger" where
  "ack_pending =
     logger0\<lparr>parseUbxState := PARSE_UBX_CHECKSUM_B,
             ubxPrivate := \<lparr>ubx_length = 2, ubx_count = 2, ubx_ck_a = 0x0F, ubx_ck_b = 0x38\<rparr>,
             UBXbuffer := (\<lambda>i. 0)(0 := 0xB5, 1 := 0x62, 2 := 0x05, 3 := 0x01, 4 := 0x02,
                            5 := 0x00, 6 := 0x06, 7 := 0x01, 8 := 0x0F),
             UBXpointer := 9\<rparr>"

definition timeutc_frame :: "byte list" where
  "timeutc_frame =
     [0xB5, 0x62, 0x01, 0x21, 0x14, 0x00, 0x00, 0x00, 0x00, 0x00, 0x00, 0x00, 0x00, 0x00,
      0xFE, 0xFF, 0xFF, 0xFF, 0xE5, 0x07, 0x03, 0x0A, 0x0C, 0x22, 0x38, 0x07, 0x97, 0x3B]"

definition timeutc_pending :: "ubx_private logger" where
  "timeutc_pending =
     logger0\<lparr>parseUbxState := PARSE_UBX_CHECKSUM_B,
             ubxPrivate := \<lparr>ubx_length = 20, ubx_count = 20, ubx_ck_a = 0x97, ubx_ck_b = 0x3B\<rparr>,
             UBXbuffer := (\<lambda>i. 0)(0 := 0xB5, 1 := 0x62, 2 := 0x01, 3 := 0x21, 4 := 0x14,
                            5 := 0x00, 6 := 0x00, 7 := 0x00, 8 := 0x00, 9 := 0x00, 10 := 0x00,
                            11 := 0x00, 12 := 0x00, 13 := 0x00, 14 := 0xFE, 15 := 0xFF,
                            16 := 0xFF, 17 := 0xFF, 18 := 0xE5, 19 := 0x07, 20 := 0x03,
                            21 := 0x0A, 22 := 0x0C, 23 := 0x22, 24 := 0x38, 25 := 0x07,
                            26 := 0x97),
             UBXpointer := 27\<rparr>"

text \<open>The watchdog globals as declared (MicroMod sketch, lines 85 and 86).\<close>

definition watchdog0 :: watchdog where
  "watchdog0 = \<lparr>watchdogFlag = False, watchdogCounter = 0, wdt_calls = []\<rparr>"

text \<open>
  A state in which a frame announcing a payload of 5000 bytes has filled all but the
  last place of \<open>UBXbuffer\<close>, and the state \<open>timeutc_pending\<close> with data logging
  offline and three bytes left in the staging buffer.
\<close>

definition ubx_full :: "ubx_private logger" where
  "ubx_full =
     logger0\<lparr>parseUbxState := PARSE_UBX_PAYLOAD,
             ubxPrivate := \<lparr>ubx_length = 5000, ubx_count = 4089, ubx_ck_a = 0, ubx_ck_b = 0\<rparr>,
             UBXpointer := 4095\<rparr>"

definition logging_off :: "ubx_private logger" where
  "logging_off =
     timeutc_pending\<lparr>online_dataLogging := False,
                     GNSSbuffer := \<lparr>rb_data = [0x01, 0x02, 0x03], rb_capacity = 24576\<rparr>\<rparr>"

text \<open>
  States for the RTC sync: \<open>timeutc_pending\<close> with no sync required, the initial
  state with the alarm flag raised and no sync pending, and the initial state with a
  logging window and a sleep of one minute each and no sync pending.
\<close>

definition synced_pending :: "ubx_private logger" where
  "synced_pending = timeutc_pending\<lparr>rtcSyncRequiredFlag := False\<rparr>"

definition alarm_raised :: "ubx_private logger" where
  "alarm_raised = logger0\<lparr>alarmFlag := True, rtcSyncRequiredFlag := False\<rparr>"

definition sleep_due :: "ubx_private logger" where
  "sleep_due =
     logger0\<lparr>rtcSyncRequiredFlag := False,
             settings_usSleepDuration := 60000000,
             settings_usLoggingDuration := 60000000\<rparr>"

text \<open>
  The initial state with 500 bytes, and with 600 bytes, in the staging buffer.
\<close>

definition staged500 :: "ubx_private logger" where
  "staged500 = logger0\<lparr>GNSSbuffer := \<lparr>rb_data = replicate 500 0x55, rb_capacity = 24576\<rparr>\<rparr>"

definition staged600 :: "ubx_private logger" where
  "staged600 = logger0\<lparr>GNSSbuffer := \<lparr>rb_data = replicate 600 0x55, rb_capacity = 24576\<rparr>\<rparr>"

text \<open>
  The staging buffer of \<open>storeData\<close> with room for one more byte.
\<close>

definition nearly_full :: ring_buffer where
  "nearly_full = \<lparr>rb_data = replicate 24575 0x00, rb_capacity = 24576\<rparr>"

text \<open>
  A second frame that is not an acknowledgement: NAV-EOE (class 0x01, id 0x61), whose
  payload is the four bytes of the time of week, here zero.
\<close>

definition eoe_frame :: "byte list" where
  "eoe_frame = [0xB5, 0x62, 0x01, 0x61, 0x04, 0x00, 0x00, 0x00, 0x00, 0x00, 0x66, 0xC7]"

text \<open>
  The clock of the MicroMod sketch at 12:34:56 on the 10th of March, with the alarm
  intervals as declared (lines 72 to 75), an alarm programmed for 11:34 and its
  interrupt still latched.
\<close>

definition clock_1234 :: rtc_fields where
  "clock_1234 =
     \<lparr>f_hour = 12, f_minute = 34, f_seconds = 56, f_hundredths = 0,
      f_dayOfMonth = 10, f_month = 3\<rparr>"

definition rtc_stale :: rtc_dev where
  "rtc_stale =
     \<lparr>rtc_now = clock_1234,
      rtc_alarm = \<lparr>f_hour = 11, f_minute = 34, f_seconds = 0, f_hundredths = 0,
                    f_dayOfMonth = 10, f_month = 3\<rparr>,
      rtc_alarmMode = 5,
      int_alm = True,
      hal_calls = [],
      sleepAlarmMinutes = 60,
      sleepAlarmHours = 0,
      loggingAlarmHours = 0,
      loggingAlarmMinutes = 60,
      rtc_alarmFlag = False\<rparr>"

text \<open>
  The valid frames in a stream of bytes, as the parser \<open>P\<close> recognises them when it is
  driven the way \<open>storeData\<close> drives it: fed byte by byte, and put back to its first
  stage after \<open>SYNC_LOST\<close> and after \<open>FRAME_VALID\<close>. Each frame comes with the byte
  at offset 2 of the frame buffer, which is its class byte. The frame buffer \<open>buf\<close>
  and the count \<open>n\<close> of bytes gathered so far are passed along; nothing is recognised
  past the byte that fills the frame buffer.
\<close>

fun recognised ::
  "(byte \<Rightarrow> ParseUbxStates \<times> 'p \<Rightarrow> ParseUbxStates \<times> 'p) \<Rightarrow> byte list
     \<Rightarrow> ParseUbxStates \<times> 'p \<Rightarrow> (nat \<Rightarrow> byte) \<Rightarrow> nat \<Rightarrow> (byte list \<times> byte) list" where
  "recognised P [] sp buf n = []"
| "recognised P (b # bs) sp buf n =
     (let st = fst (P b sp); p = snd (P b sp); buf' = buf(n := b)
      in if Suc n = UBXbufferSize then []
         else if st = SYNC_LOST then recognised P bs (PARSE_UBX_SYNC_CHAR_1, p) buf' 0
         else if st = FRAME_VALID
           then (map buf' [0..<Suc n], buf' 2) # recognised P bs (PARSE_UBX_SYNC_CHAR_1, p) buf' 0
         else recognised P bs (st, p) buf' (Suc n))"

definition non_ack_bytes :: "(byte list \<times> byte) list \<Rightarrow> byte list" where
  "non_ack_bytes fs = concat (map fst (filter (\<lambda>f. snd f \<noteq> UBX_CLASS_ACK) fs))"

section \<open>Properties\<close>

subsection \<open>The staging buffer and the frame copy\<close>

lemma copy_frame_eq:
  "copy_frame fr rb = rb\<lparr>rb_data := rb_data rb @ take (rb_capacity rb - length (rb_data rb)) fr\<rparr>"
proof (induction fr arbitrary: rb)
  case Nil
  show ?case by simp
next
  case (Cons c cs)
  show ?case
  proof (cases "length (rb_data rb) < rb_capacity rb")
    case True
    then obtain k where k: "rb_capacity rb - length (rb_data rb) = Suc k"
      by (metis Suc_diff_Suc)
    then have "rb_capacity rb - Suc (length (rb_data rb)) = k" by arith
    with True k show ?thesis
      by (simp add: Cons.IH store_char_def)
  next
    case False
    then show ?thesis by (simp add: Cons.IH store_char_def)
  qed
qed

lemma discardAll_empty: "discardAll rb = rb\<lparr>rb_data := []\<rparr>"
proof (induction rb rule: discardAll.induct)
  case (1 rb)
  show ?case
  proof (cases "rb_data rb")
    case Nil
    then show ?thesis by (subst discardAll.simps) (simp add: available_def)
  next
    case (Cons c cs)
    then have "discardAll rb = discardAll (snd (read_char rb))"
      by (subst discardAll.simps) (simp add: available_def)
    also have "\<dots> = (snd (read_char rb))\<lparr>rb_data := []\<rparr>"
      using 1 Cons by (simp add: available_def)
    finally show ?thesis using Cons by (simp add: read_char_def)
  qed
qed

subsection \<open>What one incoming byte changes\<close>

lemma processIncoming_fields [simp]:
  "parseUbxState (processIncoming P b s) = fst (P b (parseUbxState s, ubxPrivate s))"
  "ubxPrivate (processIncoming P b s) = snd (P b (parseUbxState s, ubxPrivate s))"
  "UBXbuffer (processIncoming P b s) = (UBXbuffer s)(UBXpointer s := b)"
  "UBXpointer (processIncoming P b s) = Suc (UBXpointer s)"
  "GNSSbuffer (processIncoming P b s) = GNSSbuffer s"
  "rtcSyncFlag (processIncoming P b s) = rtcSyncFlag s"
  "rtcSyncRequiredFlag (processIncoming P b s) = rtcSyncRequiredFlag s"
  "rtc_calls (processIncoming P b s) = rtc_calls s"
  "file_calls (processIncoming P b s) = file_calls s"
  "SDpointer (processIncoming P b s) = SDpointer s"
  "SDbuffer (processIncoming P b s) = SDbuffer s"
  "settings_logData (processIncoming P b s) = settings_logData s"
  "online_microSd (processIncoming P b s) = online_microSd s"
  "online_dataLogging (processIncoming P b s) = online_dataLogging s"
  by (simp_all add: processIncoming_def split_def Let_def)

lemma frame_bytes_processIncoming:
  "frame_bytes (processIncoming P b s) = frame_bytes s @ [b]"
  by (simp add: frame_bytes_def)

lemma syncRtc_fields [simp]:
  "UBXbuffer (syncRtc_from_frame s) = UBXbuffer s"
  "UBXpointer (syncRtc_from_frame s) = UBXpointer s"
  "GNSSbuffer (syncRtc_from_frame s) = GNSSbuffer s"
  "parseUbxState (syncRtc_from_frame s) = parseUbxState s"
  "file_calls (syncRtc_from_frame s) = file_calls s"
  "SDpointer (syncRtc_from_frame s) = SDpointer s"
  "SDbuffer (syncRtc_from_frame s) = SDbuffer s"
  "settings_logData (syncRtc_from_frame s) = settings_logData s"
  "online_microSd (syncRtc_from_frame s) = online_microSd s"
  "online_dataLogging (syncRtc_from_frame s) = online_dataLogging s"
  by (simp_all add: syncRtc_from_frame_def)

lemma frame_bytes_syncRtc [simp]: "frame_bytes (syncRtc_from_frame s) = frame_bytes s"
  by (simp add: frame_bytes_def)

lemma classifyFrame_valid:
  "parseUbxState s = FRAME_VALID \<Longrightarrow>
   classifyFrame s =
     (if UBXbuffer s 2 \<noteq> UBX_CLASS_ACK
      then (syncRtc_from_frame s)\<lparr>GNSSbuffer := copy_frame (frame_bytes s) (GNSSbuffer s),
             UBXpointer := 0, parseUbxState := PARSE_UBX_SYNC_CHAR_1\<rparr>
      else s\<lparr>UBXpointer := 0, parseUbxState := PARSE_UBX_SYNC_CHAR_1\<rparr>)"
  by (simp add: classifyFrame_def Let_def)

lemma classifyFrame_rtc_cases:
  "rtc_calls (classifyFrame s) = rtc_calls s
     \<and> rtcSyncRequiredFlag (classifyFrame s) = rtcSyncRequiredFlag s
   \<or> (parseUbxState s = FRAME_VALID \<and> UBXbuffer s 2 = UBX_CLASS_NAV
       \<and> UBXbuffer s 3 = UBX_NAV_TIMEUTC
       \<and> rtcSyncRequiredFlag s \<and> (UBXbuffer s 25 AND 0x04) = 0x04
       \<and> \<not> rtcSyncRequiredFlag (classifyFrame s) \<and> rtcSyncFlag (classifyFrame s)
       \<and> rtc_calls (classifyFrame s) = rtc_calls s @
            [SetTime (UBXbuffer s 22) (UBXbuffer s 23) (UBXbuffer s 24) (centis (UBXbuffer s))
               (UBXbuffer s 21) (UBXbuffer s 20) (uint (rtcYear (UBXbuffer s)) - 2000)])"
  by (simp add: classifyFrame_def syncRtc_from_frame_def Let_def)

lemma classifyFrame_frame [simp]:
  "file_calls (classifyFrame s) = file_calls s"
  "SDpointer (classifyFrame s) = SDpointer s"
  "SDbuffer (classifyFrame s) = SDbuffer s"
  "settings_logData (classifyFrame s) = settings_logData s"
  "online_microSd (classifyFrame s) = online_microSd s"
  "online_dataLogging (classifyFrame s) = online_dataLogging s"
  by (simp_all add: classifyFrame_def Let_def)

lemma storeByte_frame:
  "file_calls (state_of (storeByte P b s)) = file_calls s"
  "SDpointer (state_of (storeByte P b s)) = SDpointer s"
  "SDbuffer (state_of (storeByte P b s)) = SDbuffer s"
  "settings_logData (state_of (storeByte P b s)) = settings_logData s"
  "online_microSd (state_of (storeByte P b s)) = online_microSd s"
  "online_dataLogging (state_of (storeByte P b s)) = online_dataLogging s"
  by (simp_all add: storeByte_def state_of_def Let_def)

lemma storeBytes_Cons:
  "state_of (storeBytes P (b # bs) s) =
     (case storeByte P b s of Hangs s' \<Rightarrow> s' | Returns s' \<Rightarrow> state_of (storeBytes P bs s'))"
  by (simp add: state_of_def split: outcome.splits)

lemma storeBytes_frame:
  "file_calls (state_of (storeBytes P bs s)) = file_calls s
   \<and> SDpointer (state_of (storeBytes P bs s)) = SDpointer s
   \<and> SDbuffer (state_of (storeBytes P bs s)) = SDbuffer s
   \<and> settings_logData (state_of (storeBytes P bs s)) = settings_logData s
   \<and> online_microSd (state_of (storeBytes P bs s)) = online_microSd s
   \<and> online_dataLogging (state_of (storeBytes P bs s)) = online_dataLogging s"
proof (induction bs arbitrary: s)
  case Nil
  show ?case by (simp add: state_of_def)
next
  case (Cons b bs)
  show ?case
  proof (cases "storeByte P b s")
    case (Returns s')
    with storeByte_frame[of P b s] Cons.IH[of s'] show ?thesis
      by (simp add: storeBytes_Cons state_of_def)
  next
    case (Hangs s')
    with storeByte_frame[of P b s] show ?thesis
      by (simp add: storeBytes_Cons state_of_def)
  qed
qed

subsection \<open>The two example frames\<close>

lemma ack_pending_reached:
  "storeBytes processUbx (butlast ack_frame) logger0 = Returns ack_pending"
  by (simp add: ack_frame_def ack_pending_def logger0_def storeByte_def processIncoming_def
        classifyFrame_def ubx_checksum_def UBXbufferSize_def Let_def numeral_2_eq_2[symmetric])

lemma timeutc_pending_reached:
  "storeBytes processUbx (butlast timeutc_frame) logger0 = Returns timeutc_pending"
  by (simp add: timeutc_frame_def timeutc_pending_def logger0_def storeByte_def
        processIncoming_def classifyFrame_def ubx_checksum_def UBXbufferSize_def Let_def
        numeral_2_eq_2[symmetric])

lemma frame_bytes_ack: "frame_bytes ack_pending @ [0x38] = ack_frame"
  by (simp add: frame_bytes_def ack_pending_def ack_frame_def logger0_def upt_conv_Cons)

lemma frame_bytes_timeutc: "frame_bytes timeutc_pending @ [0x3B] = timeutc_frame"
  by (simp add: frame_bytes_def timeutc_pending_def timeutc_frame_def logger0_def upt_conv_Cons)

subsection \<open>Acknowledgment filtering\<close>

lemma state_of_simps [simp]: "state_of (Returns s) = s" "state_of (Hangs s) = s"
  by (simp_all add: state_of_def)

lemma copy_frame_append:
  "rb_data (copy_frame fr rb) = rb_data rb @ take (availableForStore rb) fr
   \<and> rb_capacity (copy_frame fr rb) = rb_capacity rb
   \<and> availableForStore (copy_frame fr rb) = availableForStore rb - length fr"
  by (auto simp add: copy_frame_eq availableForStore_def)

lemma storeByte_cases:
  "storeByte P b s =
     (let t = processIncoming P b s
      in if Suc (UBXpointer s) = UBXbufferSize then Hangs t
         else if parseUbxState t = SYNC_LOST
           then Returns (t\<lparr>UBXpointer := 0, parseUbxState := PARSE_UBX_SYNC_CHAR_1\<rparr>)
         else if parseUbxState t = FRAME_VALID
           then Returns ((if UBXbuffer t 2 \<noteq> UBX_CLASS_ACK
                         then (syncRtc_from_frame t)\<lparr>GNSSbuffer := copy_frame (frame_bytes t) (GNSSbuffer t)\<rparr>
                         else t)\<lparr>UBXpointer := 0, parseUbxState := PARSE_UBX_SYNC_CHAR_1\<rparr>)
         else Returns t)"
  by (simp add: storeByte_def classifyFrame_def Let_def)

lemma non_ack_bytes_simps:
  "non_ack_bytes [] = []"
  "c \<noteq> UBX_CLASS_ACK \<Longrightarrow> non_ack_bytes ((f, c) # fs) = f @ non_ack_bytes fs"
  "c = UBX_CLASS_ACK \<Longrightarrow> non_ack_bytes ((f, c) # fs) = non_ack_bytes fs"
  by (simp_all add: non_ack_bytes_def)

lemma staged_stream:
  "rb_data (GNSSbuffer (state_of (storeBytes P bs s))) =
     rb_data (GNSSbuffer s)
       @ take (availableForStore (GNSSbuffer s))
           (non_ack_bytes (recognised P bs (parseUbxState s, ubxPrivate s) (UBXbuffer s) (UBXpointer s)))
   \<and> rb_capacity (GNSSbuffer (state_of (storeBytes P bs s))) = rb_capacity (GNSSbuffer s)"
proof (induction bs arbitrary: s)
  case Nil
  show ?case by (simp add: non_ack_bytes_simps)
next
  case (Cons b bs)
  let ?t = "processIncoming P b s"
  let ?p = "snd (P b (parseUbxState s, ubxPrivate s))"
  let ?buf = "(UBXbuffer s)(UBXpointer s := b)"
  let ?rec = "recognised P (b # bs) (parseUbxState s, ubxPrivate s) (UBXbuffer s) (UBXpointer s)"
  show ?case
  proof (cases "Suc (UBXpointer s) = UBXbufferSize")
    case True
    then have "storeByte P b s = Hangs ?t" and "?rec = []"
      by (simp_all add: storeByte_cases Let_def)
    then show ?thesis
      by (simp add: storeBytes_Cons non_ack_bytes_simps)
  next
    case nf: False
    show ?thesis
    proof (cases "parseUbxState ?t = SYNC_LOST")
      case True
      let ?u = "?t\<lparr>UBXpointer := 0, parseUbxState := PARSE_UBX_SYNC_CHAR_1\<rparr>"
      have r: "storeByte P b s = Returns ?u"
        using nf True by (simp add: storeByte_cases Let_def)
      have e: "state_of (storeBytes P (b # bs) s) = state_of (storeBytes P bs ?u)"
        by (simp add: storeBytes_Cons r)
      have rec: "?rec = recognised P bs (PARSE_UBX_SYNC_CHAR_1, ?p) ?buf 0"
        using nf True by (simp add: Let_def)
      have u: "parseUbxState ?u = PARSE_UBX_SYNC_CHAR_1" "ubxPrivate ?u = ?p"
        "UBXbuffer ?u = ?buf" "UBXpointer ?u = 0" "GNSSbuffer ?u = GNSSbuffer s"
        by simp_all
      from Cons.IH[of ?u] show ?thesis
        unfolding e rec u .
    next
      case nl: False
      show ?thesis
      proof (cases "parseUbxState ?t = FRAME_VALID")
        case False
        have r: "storeByte P b s = Returns ?t"
          using nf nl False by (simp add: storeByte_cases Let_def)
        have e: "state_of (storeBytes P (b # bs) s) = state_of (storeBytes P bs ?t)"
          by (simp add: storeBytes_Cons r)
        have rec: "?rec = recognised P bs (parseUbxState ?t, ?p) ?buf (Suc (UBXpointer s))"
          using nf nl False by (simp add: Let_def)
        have u: "ubxPrivate ?t = ?p"
          "UBXbuffer ?t = ?buf" "UBXpointer ?t = Suc (UBXpointer s)" "GNSSbuffer ?t = GNSSbuffer s"
          by simp_all
        from Cons.IH[of ?t] show ?thesis
          unfolding e rec u .
      next
        case v: True
        let ?f = "map ?buf [0..<Suc (UBXpointer s)]"
        have fb: "frame_bytes ?t = ?f"
          by (simp add: frame_bytes_def)
        have rec: "?rec = (?f, ?buf 2) # recognised P bs (PARSE_UBX_SYNC_CHAR_1, ?p) ?buf 0"
          using nf nl v by (simp add: Let_def del: upt_Suc)
        show ?thesis
        proof (cases "UBXbuffer ?t 2 = UBX_CLASS_ACK")
          case True
          let ?u = "?t\<lparr>UBXpointer := 0, parseUbxState := PARSE_UBX_SYNC_CHAR_1\<rparr>"
          have r: "storeByte P b s = Returns ?u"
            using nf v True by (simp add: storeByte_cases Let_def)
          have e: "state_of (storeBytes P (b # bs) s) = state_of (storeBytes P bs ?u)"
            by (simp add: storeBytes_Cons r)
          have u: "parseUbxState ?u = PARSE_UBX_SYNC_CHAR_1" "ubxPrivate ?u = ?p"
            "UBXbuffer ?u = ?buf" "UBXpointer ?u = 0" "GNSSbuffer ?u = GNSSbuffer s"
            by simp_all
          have ack: "?buf 2 = UBX_CLASS_ACK" using True by simp
          from Cons.IH[of ?u] show ?thesis
            unfolding e rec u non_ack_bytes_simps(3)[OF ack] .
        next
          case False
          let ?g = "copy_frame ?f (GNSSbuffer s)"
          let ?u = "(syncRtc_from_frame ?t)\<lparr>GNSSbuffer := copy_frame (frame_bytes ?t) (GNSSbuffer ?t),
                      UBXpointer := 0, parseUbxState := PARSE_UBX_SYNC_CHAR_1\<rparr>"
          have r: "storeByte P b s = Returns ?u"
            using nf v False by (simp add: storeByte_cases Let_def)
          have e: "state_of (storeBytes P (b # bs) s) = state_of (storeBytes P bs ?u)"
            by (simp add: storeBytes_Cons r)
          have pu: "ubxPrivate (syncRtc_from_frame ?t) = ?p"
            by (simp add: syncRtc_from_frame_def)
          have u: "parseUbxState ?u = PARSE_UBX_SYNC_CHAR_1" "ubxPrivate ?u = ?p"
            "UBXbuffer ?u = ?buf" "UBXpointer ?u = 0" "GNSSbuffer ?u = ?g"
            using pu by (simp_all add: fb)
          have nack: "?buf 2 \<noteq> UBX_CLASS_ACK" using False by simp
          let ?rest = "non_ack_bytes (recognised P bs (PARSE_UBX_SYNC_CHAR_1, ?p) ?buf 0)"
          let ?k = "availableForStore (GNSSbuffer s)"
          note cf = copy_frame_append[of ?f "GNSSbuffer s"]
          have g1: "rb_data ?g = rb_data (GNSSbuffer s) @ take ?k ?f"
            and g2: "availableForStore ?g = ?k - length ?f"
            and g3: "rb_capacity ?g = rb_capacity (GNSSbuffer s)"
            using cf by blast+
          from Cons.IH[of ?u] have
            ih1: "rb_data (GNSSbuffer (state_of (storeBytes P bs ?u))) =
               rb_data ?g @ take (availableForStore ?g) ?rest"
            and ih2: "rb_capacity (GNSSbuffer (state_of (storeBytes P bs ?u))) = rb_capacity ?g"
            unfolding u by blast+
          have "rb_data (GNSSbuffer (state_of (storeBytes P bs ?u))) =
                  rb_data (GNSSbuffer s) @ take ?k (?f @ ?rest)"
            unfolding ih1 g1 g2 by (simp only: take_append append_assoc)
          with ih2 g3 show ?thesis
            unfolding e rec non_ack_bytes_simps(2)[OF nack] by (simp only:)
        qed
      qed
    qed
  qed
qed

lemma recognised_example:
  "recognised processUbx (ack_frame @ timeutc_frame)
     (parseUbxState logger0, ubxPrivate logger0) (UBXbuffer logger0) (UBXpointer logger0)
   = [(ack_frame, 0x05), (timeutc_frame, 0x01)]"
  by (simp add: ack_frame_def timeutc_frame_def logger0_def ubx_checksum_def UBXbufferSize_def
        Let_def upt_conv_Cons numeral_2_eq_2[symmetric] del: upt_Suc)

text \<open>
  Claim C1. Whenever the parser reports \<open>FRAME_VALID\<close> on an incoming byte, the frame
  being the bytes gathered in \<open>UBXbuffer\<close> since the last reset followed by that byte:
  if the class byte \<open>UBXbuffer[2]\<close> is the ACK class, the staging buffer is left as it
  was; otherwise every byte of the frame is handed to \<open>GNSSbuffer.store_char\<close> in
  order, so that the staging buffer gains the frame byte for byte (all of it when it
  has room for the frame, and the part that fits otherwise). Either way the frame
  buffer is reset for the next frame. The frame has to be shorter than \<open>UBXbuffer\<close>,
  since the byte that fills it stops the program. For a whole stream of bytes: what
  the run adds to the staging buffer is the concatenation, in order, of the recognised
  valid frames whose class is not ACK, cut to the room the buffer had. Both hold for
  every parser \<open>P\<close>.
\<close>

theorem ack_frames_discarded_others_staged:
  "(fst (P incoming (parseUbxState s, ubxPrivate s)) = FRAME_VALID
      \<and> UBXpointer s + 1 < UBXbufferSize \<longrightarrow>
      (\<exists>s'. storeByte P incoming s = Returns s'
        \<and> UBXpointer s' = 0 \<and> parseUbxState s' = PARSE_UBX_SYNC_CHAR_1
        \<and> (UBXbuffer (processIncoming P incoming s) 2 = UBX_CLASS_ACK \<longrightarrow>
              GNSSbuffer s' = GNSSbuffer s)
        \<and> (UBXbuffer (processIncoming P incoming s) 2 \<noteq> UBX_CLASS_ACK \<longrightarrow>
              GNSSbuffer s' = copy_frame (frame_bytes s @ [incoming]) (GNSSbuffer s)
            \<and> rb_data (GNSSbuffer s') =
                rb_data (GNSSbuffer s)
                  @ take (availableForStore (GNSSbuffer s)) (frame_bytes s @ [incoming])
            \<and> (length (frame_bytes s @ [incoming]) \<le> availableForStore (GNSSbuffer s) \<longrightarrow>
                  rb_data (GNSSbuffer s') = rb_data (GNSSbuffer s) @ frame_bytes s @ [incoming]))))
   \<and> rb_data (GNSSbuffer (state_of (storeBytes P bytes s))) =
       rb_data (GNSSbuffer s)
         @ take (availableForStore (GNSSbuffer s))
             (non_ack_bytes
                (recognised P bytes (parseUbxState s, ubxPrivate s) (UBXbuffer s) (UBXpointer s)))"
proof (intro conjI impI)
  assume h: "fst (P incoming (parseUbxState s, ubxPrivate s)) = FRAME_VALID
      \<and> UBXpointer s + 1 < UBXbufferSize"
  let ?t = "processIncoming P incoming s"
  have st: "parseUbxState ?t = FRAME_VALID" using h by simp
  have nh: "UBXpointer ?t \<noteq> UBXbufferSize" using h by simp
  have run: "storeByte P incoming s = Returns (classifyFrame ?t)"
    using nh by (simp add: storeByte_def Let_def)
  show "\<exists>s'. storeByte P incoming s = Returns s'
        \<and> UBXpointer s' = 0 \<and> parseUbxState s' = PARSE_UBX_SYNC_CHAR_1
        \<and> (UBXbuffer (processIncoming P incoming s) 2 = UBX_CLASS_ACK \<longrightarrow>
              GNSSbuffer s' = GNSSbuffer s)
        \<and> (UBXbuffer (processIncoming P incoming s) 2 \<noteq> UBX_CLASS_ACK \<longrightarrow>
              GNSSbuffer s' = copy_frame (frame_bytes s @ [incoming]) (GNSSbuffer s)
            \<and> rb_data (GNSSbuffer s') =
                rb_data (GNSSbuffer s)
                  @ take (availableForStore (GNSSbuffer s)) (frame_bytes s @ [incoming])
            \<and> (length (frame_bytes s @ [incoming]) \<le> availableForStore (GNSSbuffer s) \<longrightarrow>
                  rb_data (GNSSbuffer s') = rb_data (GNSSbuffer s) @ frame_bytes s @ [incoming]))"
  proof (cases "UBXbuffer ?t 2 = UBX_CLASS_ACK")
    case True
    then show ?thesis
      unfolding run by (simp add: classifyFrame_valid[OF st])
  next
    case False
    then show ?thesis
      unfolding run
      by (simp add: classifyFrame_valid[OF st] frame_bytes_processIncoming copy_frame_eq
            availableForStore_def)
  qed
next
  show "rb_data (GNSSbuffer (state_of (storeBytes P bytes s))) =
       rb_data (GNSSbuffer s)
         @ take (availableForStore (GNSSbuffer s))
             (non_ack_bytes
                (recognised P bytes (parseUbxState s, ubxPrivate s) (UBXbuffer s) (UBXpointer s)))"
    using staged_stream[of P bytes s] by blast
qed

theorem ack_frames_discarded_others_staged_witness:
  "fst (processUbx 0x38 (parseUbxState ack_pending, ubxPrivate ack_pending)) = FRAME_VALID
   \<and> UBXbuffer (processIncoming processUbx 0x38 ack_pending) 2 = UBX_CLASS_ACK
   \<and> (\<exists>s'. storeByte processUbx 0x38 ack_pending = Returns s' \<and> rb_data (GNSSbuffer s') = [])
   \<and> fst (processUbx 0x3B (parseUbxState timeutc_pending, ubxPrivate timeutc_pending)) = FRAME_VALID
   \<and> UBXbuffer (processIncoming processUbx 0x3B timeutc_pending) 2 \<noteq> UBX_CLASS_ACK
   \<and> (\<exists>s'. storeByte processUbx 0x3B timeutc_pending = Returns s'
          \<and> rb_data (GNSSbuffer s') = timeutc_frame)
   \<and> rb_data (GNSSbuffer (state_of (storeBytes processUbx (ack_frame @ timeutc_frame) logger0)))
        = timeutc_frame"
proof -
  have a1: "fst (processUbx 0x38 (parseUbxState ack_pending, ubxPrivate ack_pending)) = FRAME_VALID
      \<and> UBXpointer ack_pending + 1 < UBXbufferSize"
    by (simp add: ack_pending_def logger0_def UBXbufferSize_def)
  have a3: "UBXbuffer (processIncoming processUbx 0x38 ack_pending) 2 = UBX_CLASS_ACK"
    by (simp add: ack_pending_def logger0_def UBX_CLASS_ACK_def)
  have a4: "rb_data (GNSSbuffer ack_pending) = []"
    by (simp add: ack_pending_def logger0_def)
  have t1: "fst (processUbx 0x3B (parseUbxState timeutc_pending, ubxPrivate timeutc_pending))
              = FRAME_VALID
      \<and> UBXpointer timeutc_pending + 1 < UBXbufferSize"
    by (simp add: timeutc_pending_def logger0_def UBXbufferSize_def)
  have t3: "UBXbuffer (processIncoming processUbx 0x3B timeutc_pending) 2 \<noteq> UBX_CLASS_ACK"
    by (simp add: timeutc_pending_def logger0_def UBX_CLASS_ACK_def)
  have t4: "rb_data (GNSSbuffer timeutc_pending) = []"
    "length (frame_bytes timeutc_pending @ [0x3B]) \<le> availableForStore (GNSSbuffer timeutc_pending)"
    by (simp_all add: timeutc_pending_def logger0_def availableForStore_def frame_bytes_def)
  from ack_frames_discarded_others_staged[of processUbx "0x38" ack_pending "[]",
      THEN conjunct1, rule_format, OF a1] a3 a4
  have A: "\<exists>s'. storeByte processUbx 0x38 ack_pending = Returns s' \<and> rb_data (GNSSbuffer s') = []"
    by auto
  from ack_frames_discarded_others_staged[of processUbx "0x3B" timeutc_pending "[]",
      THEN conjunct1, rule_format, OF t1] t3 t4 frame_bytes_timeutc
  have T: "\<exists>s'. storeByte processUbx 0x3B timeutc_pending = Returns s'
          \<and> rb_data (GNSSbuffer s') = timeutc_frame"
    by auto
  have n: "non_ack_bytes [(ack_frame, 0x05), (timeutc_frame, 0x01)] = timeutc_frame"
    by (simp add: non_ack_bytes_def UBX_CLASS_ACK_def)
  have g: "rb_data (GNSSbuffer logger0) = []" "availableForStore (GNSSbuffer logger0) = 24576"
    "length timeutc_frame = 28"
    by (simp_all add: logger0_def availableForStore_def timeutc_frame_def)
  from ack_frames_discarded_others_staged[of processUbx "0x00" logger0
      "ack_frame @ timeutc_frame", THEN conjunct2]
  have S: "rb_data (GNSSbuffer (state_of (storeBytes processUbx (ack_frame @ timeutc_frame) logger0)))
        = timeutc_frame"
    unfolding recognised_example n g(1,2) using g(3) by simp
  from a1 a3 A t1 t3 T S show ?thesis by blast
qed

subsection \<open>The frame buffer's guard\<close>

lemma recognised_lengths:
  "n < UBXbufferSize \<Longrightarrow> \<forall>f \<in> set (recognised P bs sp buf n). length (fst f) < UBXbufferSize"
proof (induction bs arbitrary: sp buf n)
  case Nil
  show ?case by simp
next
  case (Cons b bs)
  have z: "0 < UBXbufferSize" by (simp add: UBXbufferSize_def)
  show ?case
  proof (cases "Suc n = UBXbufferSize")
    case True
    then show ?thesis by (simp add: Let_def)
  next
    case False
    with Cons.prems have lt: "Suc n < UBXbufferSize" by simp
    from Cons.IH[OF z] Cons.IH[OF lt] False lt show ?thesis
      by (simp add: Let_def del: upt_Suc)
  qed
qed

text \<open>
  Claim C9. From a state whose frame buffer is not yet full: when the incoming byte is
  the one that fills \<open>UBXbuffer\<close> (\<open>UBXpointer\<close> reaches \<open>UBXbufferSize = 4096\<close>),
  the program enters its endless loop, whatever the parser says about that byte and
  whatever bytes were to follow; the frame is not discarded, nothing is staged and
  nothing is written. When the byte is processed and the program goes on, the frame
  buffer is again not full and the staging buffer is either unchanged or has been
  offered a frame of fewer than 4096 bytes. Over a whole stream, every valid frame that
  is recognised has fewer than 4096 bytes. The diagnostic print is serial output and
  is not part of the state.
\<close>

theorem ubx_buffer_overflow_freezes:
  assumes inv: "UBXpointer s < UBXbufferSize"
  shows "(UBXpointer s + 1 = UBXbufferSize \<longrightarrow>
            storeByte P incoming s = Hangs (processIncoming P incoming s)
          \<and> storeBytes P (incoming # rest) s = Hangs (processIncoming P incoming s)
          \<and> storeData P (incoming # rest) millis1 millis2 s = Hangs (processIncoming P incoming s)
          \<and> GNSSbuffer (processIncoming P incoming s) = GNSSbuffer s
          \<and> file_calls (processIncoming P incoming s) = file_calls s)
       \<and> (\<forall>s'. storeByte P incoming s = Returns s' \<longrightarrow>
            UBXpointer s' < UBXbufferSize
          \<and> (GNSSbuffer s' = GNSSbuffer s
              \<or> length (frame_bytes s @ [incoming]) < UBXbufferSize
                \<and> GNSSbuffer s' = copy_frame (frame_bytes s @ [incoming]) (GNSSbuffer s)))
       \<and> (\<forall>f \<in> set (recognised P bytes (parseUbxState s, ubxPrivate s) (UBXbuffer s)
                        (UBXpointer s)).
            length (fst f) < UBXbufferSize)"
proof (intro conjI impI allI)
  show "\<forall>f \<in> set (recognised P bytes (parseUbxState s, ubxPrivate s) (UBXbuffer s)
                        (UBXpointer s)).
            length (fst f) < UBXbufferSize"
    using inv by (rule recognised_lengths)
next
  assume full: "UBXpointer s + 1 = UBXbufferSize"
  then show h: "storeByte P incoming s = Hangs (processIncoming P incoming s)"
    by (simp add: storeByte_def Let_def)
  then show h2: "storeBytes P (incoming # rest) s = Hangs (processIncoming P incoming s)"
    by simp
  then show "storeData P (incoming # rest) millis1 millis2 s = Hangs (processIncoming P incoming s)"
    by (simp add: storeData_def)
  show "GNSSbuffer (processIncoming P incoming s) = GNSSbuffer s" by simp
  show "file_calls (processIncoming P incoming s) = file_calls s" by simp
next
  fix s'
  assume r: "storeByte P incoming s = Returns s'"
  let ?t = "processIncoming P incoming s"
  from r have ne: "UBXpointer ?t \<noteq> UBXbufferSize" and s': "s' = classifyFrame ?t"
    by (auto simp add: storeByte_def Let_def split: if_splits)
  from ne inv have lt: "Suc (UBXpointer s) < UBXbufferSize" by simp
  show "UBXpointer s' < UBXbufferSize"
    using lt by (auto simp add: s' classifyFrame_def Let_def UBXbufferSize_def)
  show "GNSSbuffer s' = GNSSbuffer s
              \<or> length (frame_bytes s @ [incoming]) < UBXbufferSize
                \<and> GNSSbuffer s' = copy_frame (frame_bytes s @ [incoming]) (GNSSbuffer s)"
  proof -
    have len: "length (frame_bytes s @ [incoming]) < UBXbufferSize"
      using lt by (simp add: frame_bytes_def)
    show ?thesis
      using len by (auto simp add: s' classifyFrame_def Let_def frame_bytes_processIncoming)
  qed
qed

theorem ubx_buffer_overflow_freezes_witness:
  "UBXpointer ubx_full < UBXbufferSize \<and> UBXpointer ubx_full + 1 = UBXbufferSize
   \<and> storeData processUbx [0x00, 0x01] 0 0 ubx_full = Hangs (processIncoming processUbx 0x00 ubx_full)
   \<and> UBXpointer ack_pending < UBXbufferSize
   \<and> (\<exists>s'. storeByte processUbx 0x38 ack_pending = Returns s' \<and> UBXpointer s' < UBXbufferSize
         \<and> GNSSbuffer s' = GNSSbuffer ack_pending)
   \<and> UBXpointer timeutc_pending < UBXbufferSize
   \<and> (\<exists>s'. storeByte processUbx 0x3B timeutc_pending = Returns s' \<and> UBXpointer s' < UBXbufferSize
         \<and> length timeutc_frame < UBXbufferSize
         \<and> GNSSbuffer s' = copy_frame timeutc_frame (GNSSbuffer timeutc_pending))
   \<and> UBXpointer logger0 < UBXbufferSize
   \<and> length ack_frame < UBXbufferSize"
proof -
  have f1: "UBXpointer ubx_full < UBXbufferSize" and f2: "UBXpointer ubx_full + 1 = UBXbufferSize"
    by (simp_all add: ubx_full_def logger0_def UBXbufferSize_def)
  have a1: "UBXpointer ack_pending < UBXbufferSize"
    by (simp add: ack_pending_def logger0_def UBXbufferSize_def)
  have t1: "UBXpointer timeutc_pending < UBXbufferSize"
    by (simp add: timeutc_pending_def logger0_def UBXbufferSize_def)
  have ra: "storeByte processUbx 0x38 ack_pending = Returns (classifyFrame (processIncoming processUbx 0x38 ack_pending))"
    by (simp add: storeByte_def Let_def ack_pending_def logger0_def UBXbufferSize_def)
  have ga: "GNSSbuffer (classifyFrame (processIncoming processUbx 0x38 ack_pending)) = GNSSbuffer ack_pending"
    by (simp add: classifyFrame_def Let_def ack_pending_def logger0_def UBX_CLASS_ACK_def)
  have rt: "storeByte processUbx 0x3B timeutc_pending = Returns (classifyFrame (processIncoming processUbx 0x3B timeutc_pending))"
    by (simp add: storeByte_def Let_def timeutc_pending_def logger0_def UBXbufferSize_def)
  have gt: "GNSSbuffer (classifyFrame (processIncoming processUbx 0x3B timeutc_pending)) \<noteq> GNSSbuffer timeutc_pending"
    by (simp add: classifyFrame_def Let_def copy_frame_eq frame_bytes_processIncoming
          UBX_CLASS_ACK_def timeutc_pending_def logger0_def frame_bytes_def)
  have l1: "UBXpointer logger0 < UBXbufferSize"
    by (simp add: logger0_def UBXbufferSize_def)
  from ubx_buffer_overflow_freezes[of logger0 processUbx "0x00" "[]" 0 0
      "ack_frame @ timeutc_frame", OF l1]
  have L: "length ack_frame < UBXbufferSize"
    unfolding recognised_example by simp
  from ubx_buffer_overflow_freezes[of ubx_full processUbx "0x00" "[0x01]" 0 0 "[]", OF f1] f2
  have F: "storeData processUbx [0x00, 0x01] 0 0 ubx_full = Hangs (processIncoming processUbx 0x00 ubx_full)"
    by blast
  from ubx_buffer_overflow_freezes[of ack_pending processUbx "0x38" "[]" 0 0 "[]", OF a1] ra ga
  have A: "\<exists>s'. storeByte processUbx 0x38 ack_pending = Returns s' \<and> UBXpointer s' < UBXbufferSize
         \<and> GNSSbuffer s' = GNSSbuffer ack_pending"
    by blast
  from ubx_buffer_overflow_freezes[of timeutc_pending processUbx "0x3B" "[]" 0 0 "[]", OF t1] rt gt
  have T: "\<exists>s'. storeByte processUbx 0x3B timeutc_pending = Returns s' \<and> UBXpointer s' < UBXbufferSize
         \<and> length timeutc_frame < UBXbufferSize
         \<and> GNSSbuffer s' = copy_frame timeutc_frame (GNSSbuffer timeutc_pending)"
    unfolding frame_bytes_timeutc[symmetric] by blast
  from f1 f2 F a1 A t1 T l1 L show ?thesis by blast
qed

subsection \<open>The time extractor\<close>

lemma centis_negative: "sint (nanos_unsigned32 buf) < 0 \<Longrightarrow> centis buf = 0"
  by (simp add: centis_def Let_def)

text \<open>
  Claim C6. When the byte that completes a valid UBX-NAV-TIMEUTC frame arrives while a
  sync is required, the frame's validUTC bit is set and its nanosecond field, read as a
  signed 32-bit value, is negative, the field is clamped to zero before the division
  by ten million, and exactly one \<open>rtc.setTime\<close> call is added: hour, minute and
  second from bytes 22 to 24, hundredths 0, day and month from bytes 21 and 20, and the
  year of bytes 18 and 19 less 2000.
\<close>

theorem negative_nanos_clamped_to_zero:
  assumes valid: "fst (P incoming (parseUbxState s, ubxPrivate s)) = FRAME_VALID"
      and fits: "UBXpointer s + 1 < UBXbufferSize"
      and cls: "UBXbuffer (processIncoming P incoming s) 2 = UBX_CLASS_NAV"
      and id: "UBXbuffer (processIncoming P incoming s) 3 = UBX_NAV_TIMEUTC"
      and req: "rtcSyncRequiredFlag s"
      and vbit: "(UBXbuffer (processIncoming P incoming s) 25 AND 0x04) = 0x04"
      and neg: "sint (nanos_unsigned32 (UBXbuffer (processIncoming P incoming s))) < 0"
  shows "\<exists>s'. storeByte P incoming s = Returns s'
      \<and> centis (UBXbuffer (processIncoming P incoming s)) = 0
      \<and> rtc_calls s' = rtc_calls s @
           [SetTime (UBXbuffer (processIncoming P incoming s) 22)
                    (UBXbuffer (processIncoming P incoming s) 23)
                    (UBXbuffer (processIncoming P incoming s) 24)
                    0
                    (UBXbuffer (processIncoming P incoming s) 21)
                    (UBXbuffer (processIncoming P incoming s) 20)
                    (uint (rtcYear (UBXbuffer (processIncoming P incoming s))) - 2000)]
      \<and> rtcSyncFlag s' \<and> \<not> rtcSyncRequiredFlag s'"
proof -
  let ?t = "processIncoming P incoming s"
  have st: "parseUbxState ?t = FRAME_VALID" using valid by simp
  have nh: "UBXpointer ?t \<noteq> UBXbufferSize" using fits by simp
  have run: "storeByte P incoming s = Returns (classifyFrame ?t)"
    using nh by (simp add: storeByte_def Let_def)
  have nack: "UBXbuffer ?t 2 \<noteq> UBX_CLASS_ACK"
    using cls by (simp add: UBX_CLASS_NAV_def UBX_CLASS_ACK_def)
  have c0: "centis (UBXbuffer ?t) = 0" using neg by (rule centis_negative)
  have req': "rtcSyncRequiredFlag ?t" using req by simp
  have sync: "syncRtc_from_frame ?t =
      ?t\<lparr>rtc_calls := rtc_calls ?t @
             [SetTime (UBXbuffer ?t 22) (UBXbuffer ?t 23) (UBXbuffer ?t 24) 0
                (UBXbuffer ?t 21) (UBXbuffer ?t 20) (uint (rtcYear (UBXbuffer ?t)) - 2000)],
          rtcSyncFlag := True, rtcSyncRequiredFlag := False\<rparr>"
    using cls id req' vbit c0 unfolding syncRtc_from_frame_def by simp
  show ?thesis
    unfolding run using nack c0
    by (simp add: classifyFrame_valid[OF st] sync)
qed

lemma timeutc_fields:
  "UBXbuffer (processIncoming processUbx 0x3B timeutc_pending) 2 = UBX_CLASS_NAV"
  "UBXbuffer (processIncoming processUbx 0x3B timeutc_pending) 3 = UBX_NAV_TIMEUTC"
  "(UBXbuffer (processIncoming processUbx 0x3B timeutc_pending) 25 AND 0x04) = 0x04"
  "rtcSyncRequiredFlag timeutc_pending"
  "rtc_calls timeutc_pending = []"
  by (simp_all add: timeutc_pending_def logger0_def UBX_CLASS_NAV_def UBX_NAV_TIMEUTC_def)

lemma timeutc_nanos:
  "nanos_unsigned32 (UBXbuffer (processIncoming processUbx 0x3B timeutc_pending)) = - 2"
  by (simp add: timeutc_pending_def logger0_def nanos_unsigned32_def)

lemma timeutc_year:
  "rtcYear (UBXbuffer (processIncoming processUbx 0x3B timeutc_pending)) = 2021"
  by (simp add: timeutc_pending_def logger0_def rtcYear_def)

lemma timeutc_time:
  "UBXbuffer (processIncoming processUbx 0x3B timeutc_pending) 22 = 12"
  "UBXbuffer (processIncoming processUbx 0x3B timeutc_pending) 23 = 34"
  "UBXbuffer (processIncoming processUbx 0x3B timeutc_pending) 24 = 56"
  "UBXbuffer (processIncoming processUbx 0x3B timeutc_pending) 21 = 10"
  "UBXbuffer (processIncoming processUbx 0x3B timeutc_pending) 20 = 3"
  by (simp_all add: timeutc_pending_def logger0_def)

theorem negative_nanos_clamped_to_zero_witness:
  "sint (nanos_unsigned32 (UBXbuffer (processIncoming processUbx 0x3B timeutc_pending))) = - 2
   \<and> (\<exists>s'. storeByte processUbx 0x3B timeutc_pending = Returns s'
         \<and> rtc_calls s' = [SetTime 12 34 56 0 10 3 21])"
proof -
  have t1: "fst (processUbx 0x3B (parseUbxState timeutc_pending, ubxPrivate timeutc_pending))
              = FRAME_VALID"
    by (simp add: timeutc_pending_def logger0_def)
  have t2: "UBXpointer timeutc_pending + 1 < UBXbufferSize"
    by (simp add: timeutc_pending_def logger0_def UBXbufferSize_def)
  have n: "sint (nanos_unsigned32 (UBXbuffer (processIncoming processUbx 0x3B timeutc_pending))) = - 2"
    by (simp only: timeutc_nanos) simp
  then have neg: "sint (nanos_unsigned32 (UBXbuffer (processIncoming processUbx 0x3B timeutc_pending))) < 0"
    by simp
  from negative_nanos_clamped_to_zero[of processUbx "0x3B" timeutc_pending,
      OF t1 t2 timeutc_fields(1) timeutc_fields(2) timeutc_fields(4) timeutc_fields(3) neg]
  obtain s' where r: "storeByte processUbx 0x3B timeutc_pending = Returns s'"
    and c: "rtc_calls s' = rtc_calls timeutc_pending @
           [SetTime (UBXbuffer (processIncoming processUbx 0x3B timeutc_pending) 22)
                    (UBXbuffer (processIncoming processUbx 0x3B timeutc_pending) 23)
                    (UBXbuffer (processIncoming processUbx 0x3B timeutc_pending) 24)
                    0
                    (UBXbuffer (processIncoming processUbx 0x3B timeutc_pending) 21)
                    (UBXbuffer (processIncoming processUbx 0x3B timeutc_pending) 20)
                    (uint (rtcYear (UBXbuffer (processIncoming processUbx 0x3B timeutc_pending))) - 2000)]"
    by blast
  from c have "rtc_calls s' = [SetTime 12 34 56 0 10 3 21]"
    unfolding timeutc_time timeutc_year timeutc_fields(5) by simp
  with r n show ?thesis by blast
qed

subsection \<open>Logging disabled or offline\<close>

lemma drainToSD_keeps:
  "rtc_calls (drainToSD n s) = rtc_calls s
   \<and> rtcSyncRequiredFlag (drainToSD n s) = rtcSyncRequiredFlag s
   \<and> rtcSyncFlag (drainToSD n s) = rtcSyncFlag s
   \<and> parseUbxState (drainToSD n s) = parseUbxState s
   \<and> ubxPrivate (drainToSD n s) = ubxPrivate s
   \<and> UBXbuffer (drainToSD n s) = UBXbuffer s
   \<and> UBXpointer (drainToSD n s) = UBXpointer s"
  by (induction n arbitrary: s) (simp_all add: Let_def split_def)

lemma forceSync_keeps:
  "rtc_calls (forceSync m1 m2 s) = rtc_calls s
   \<and> rtcSyncRequiredFlag (forceSync m1 m2 s) = rtcSyncRequiredFlag s
   \<and> rtcSyncFlag (forceSync m1 m2 s) = rtcSyncFlag s
   \<and> parseUbxState (forceSync m1 m2 s) = parseUbxState s
   \<and> ubxPrivate (forceSync m1 m2 s) = ubxPrivate s
   \<and> UBXbuffer (forceSync m1 m2 s) = UBXbuffer s
   \<and> UBXpointer (forceSync m1 m2 s) = UBXpointer s
   \<and> GNSSbuffer (forceSync m1 m2 s) = GNSSbuffer s"
  by (simp add: forceSync_def Let_def)

lemma sdWrite_keeps:
  "rtc_calls (sdWrite m1 m2 s) = rtc_calls s
   \<and> rtcSyncRequiredFlag (sdWrite m1 m2 s) = rtcSyncRequiredFlag s
   \<and> rtcSyncFlag (sdWrite m1 m2 s) = rtcSyncFlag s
   \<and> parseUbxState (sdWrite m1 m2 s) = parseUbxState s
   \<and> ubxPrivate (sdWrite m1 m2 s) = ubxPrivate s
   \<and> UBXbuffer (sdWrite m1 m2 s) = UBXbuffer s
   \<and> UBXpointer (sdWrite m1 m2 s) = UBXpointer s"
  by (simp add: sdWrite_def Let_def forceSync_keeps drainToSD_keeps)

lemma storeData_state:
  "state_of (storeData P bs m1 m2 s) =
     (case storeBytes P bs s of Hangs t \<Rightarrow> t | Returns t \<Rightarrow> sdWrite m1 m2 t)"
  by (simp add: storeData_def state_of_def split: outcome.splits)

lemma sdWrite_off:
  "\<not> (settings_logData s \<and> online_microSd s \<and> online_dataLogging s) \<Longrightarrow>
     sdWrite m1 m2 s = s\<lparr>GNSSbuffer := (GNSSbuffer s)\<lparr>rb_data := []\<rparr>\<rparr>"
  by (auto simp add: sdWrite_def discardAll_empty)

text \<open>
  Claim C10. When logging is disabled, or the card or the data logging is offline, a
  call of \<open>storeData\<close> does what its parsing stage does (the parser runs on every
  incoming byte and frames are classified and staged as usual) and then empties the
  staging buffer: if the call returns, the staging buffer holds no byte, no
  \<open>file.write\<close> or \<open>file.sync\<close> has been issued and the block assembly buffer is
  untouched.
\<close>

theorem logging_off_discards_staged_bytes:
  assumes off: "\<not> (settings_logData s \<and> online_microSd s \<and> online_dataLogging s)"
  shows "storeData P incoming millis1 millis2 s =
           (case storeBytes P incoming s of
              Hangs t \<Rightarrow> Hangs t
            | Returns t \<Rightarrow> Returns (t\<lparr>GNSSbuffer := (GNSSbuffer t)\<lparr>rb_data := []\<rparr>\<rparr>))
       \<and> (\<forall>s'. storeData P incoming millis1 millis2 s = Returns s' \<longrightarrow>
             available (GNSSbuffer s') = 0
           \<and> file_calls s' = file_calls s
           \<and> SDpointer s' = SDpointer s \<and> SDbuffer s' = SDbuffer s)"
proof -
  have keep: "\<not> (settings_logData (state_of (storeBytes P incoming s))
                 \<and> online_microSd (state_of (storeBytes P incoming s))
                 \<and> online_dataLogging (state_of (storeBytes P incoming s)))"
    using off storeBytes_frame[of P incoming s] by simp
  have fr: "file_calls (state_of (storeBytes P incoming s)) = file_calls s"
           "SDpointer (state_of (storeBytes P incoming s)) = SDpointer s"
           "SDbuffer (state_of (storeBytes P incoming s)) = SDbuffer s"
    using storeBytes_frame[of P incoming s] by simp_all
  show ?thesis
  proof (cases "storeBytes P incoming s")
    case (Hangs t)
    then show ?thesis by (simp add: storeData_def)
  next
    case (Returns t)
    with keep have off': "\<not> (settings_logData t \<and> online_microSd t \<and> online_dataLogging t)"
      by (simp add: state_of_def)
    from Returns fr have "file_calls t = file_calls s" "SDpointer t = SDpointer s"
      "SDbuffer t = SDbuffer s"
      by (simp_all add: state_of_def)
    with Returns show ?thesis
      by (simp add: storeData_def sdWrite_off[OF off'] available_def)
  qed
qed

theorem logging_off_discards_staged_bytes_witness:
  "\<not> (settings_logData logging_off \<and> online_microSd logging_off \<and> online_dataLogging logging_off)
   \<and> available (GNSSbuffer logging_off) = 3
   \<and> (\<exists>s'. storeData processUbx [0x3B] 1000 1000 logging_off = Returns s'
         \<and> available (GNSSbuffer s') = 0 \<and> file_calls s' = []
         \<and> parseUbxState s' = PARSE_UBX_SYNC_CHAR_1
         \<and> rtc_calls s' = [SetTime 12 34 56 0 10 3 21])"
proof -
  have off: "\<not> (settings_logData logging_off \<and> online_microSd logging_off
                 \<and> online_dataLogging logging_off)"
    by (simp add: logging_off_def)
  have av: "available (GNSSbuffer logging_off) = 3"
    by (simp add: logging_off_def available_def)
  have run: "storeBytes processUbx [0x3B] logging_off =
               Returns (classifyFrame (processIncoming processUbx 0x3B logging_off))"
    by (simp add: storeByte_def Let_def logging_off_def timeutc_pending_def logger0_def
          UBXbufferSize_def)
  have st: "parseUbxState (classifyFrame (processIncoming processUbx 0x3B logging_off))
              = PARSE_UBX_SYNC_CHAR_1"
    by (simp add: classifyFrame_def Let_def logging_off_def timeutc_pending_def logger0_def)
  have rc: "rtc_calls (classifyFrame (processIncoming processUbx 0x3B logging_off))
              = [SetTime 12 34 56 0 10 3 21]"
    by (simp add: classifyFrame_def syncRtc_from_frame_def Let_def logging_off_def
          timeutc_pending_def logger0_def UBX_CLASS_ACK_def UBX_CLASS_NAV_def UBX_NAV_TIMEUTC_def
          centis_def nanos_unsigned32_def rtcYear_def)
  have fc: "file_calls logging_off = []"
    by (simp add: logging_off_def timeutc_pending_def logger0_def)
  from logging_off_discards_staged_bytes[of logging_off processUbx "[0x3B]" 1000 1000, OF off]
  have "\<exists>s'. storeData processUbx [0x3B] 1000 1000 logging_off = Returns s'
         \<and> available (GNSSbuffer s') = 0 \<and> file_calls s' = []
         \<and> parseUbxState s' = PARSE_UBX_SYNC_CHAR_1
         \<and> rtc_calls s' = [SetTime 12 34 56 0 10 3 21]"
    unfolding run using st rc fc by (simp add: available_def)
  with off av show ?thesis by blast
qed

subsection \<open>When the clock is set\<close>

lemma storeByte_rtc_step:
  "rtc_calls (state_of (storeByte P b s)) = rtc_calls s
     \<and> rtcSyncRequiredFlag (state_of (storeByte P b s)) = rtcSyncRequiredFlag s
   \<or> rtcSyncRequiredFlag s \<and> \<not> rtcSyncRequiredFlag (state_of (storeByte P b s))
     \<and> (\<exists>c. rtc_calls (state_of (storeByte P b s)) = rtc_calls s @ [c])"
  using classifyFrame_rtc_cases[of "processIncoming P b s"]
  by (auto simp add: storeByte_def state_of_def Let_def)

lemma storeBytes_rtc_step:
  "rtc_calls (state_of (storeBytes P bs s)) = rtc_calls s
     \<and> rtcSyncRequiredFlag (state_of (storeBytes P bs s)) = rtcSyncRequiredFlag s
   \<or> rtcSyncRequiredFlag s \<and> \<not> rtcSyncRequiredFlag (state_of (storeBytes P bs s))
     \<and> (\<exists>c. rtc_calls (state_of (storeBytes P bs s)) = rtc_calls s @ [c])"
proof (induction bs arbitrary: s)
  case Nil
  show ?case by (simp add: state_of_def)
next
  case (Cons b bs)
  show ?case
  proof (cases "storeByte P b s")
    case (Returns s')
    then have e: "state_of (storeBytes P (b # bs) s) = state_of (storeBytes P bs s')"
      and e1: "state_of (storeByte P b s) = s'"
      by (simp_all add: storeBytes_Cons state_of_def)
    from storeByte_rtc_step[of P b s] Cons.IH[of s'] show ?thesis
      unfolding e e1 by auto
  next
    case (Hangs s')
    then have e: "state_of (storeBytes P (b # bs) s) = s'"
      and e1: "state_of (storeByte P b s) = s'"
      by (simp_all add: storeBytes_Cons state_of_def)
    from storeByte_rtc_step[of P b s] show ?thesis
      unfolding e e1 by auto
  qed
qed

lemma storeData_rtc_step:
  "rtc_calls (state_of (storeData P bs m1 m2 s)) = rtc_calls s
     \<and> rtcSyncRequiredFlag (state_of (storeData P bs m1 m2 s)) = rtcSyncRequiredFlag s
   \<or> rtcSyncRequiredFlag s \<and> \<not> rtcSyncRequiredFlag (state_of (storeData P bs m1 m2 s))
     \<and> (\<exists>c. rtc_calls (state_of (storeData P bs m1 m2 s)) = rtc_calls s @ [c])"
proof (cases "storeBytes P bs s")
  case (Returns t)
  then have e: "state_of (storeData P bs m1 m2 s) = sdWrite m1 m2 t"
    and e2: "state_of (storeBytes P bs s) = t"
    by (simp_all add: storeData_def state_of_def)
  from storeBytes_rtc_step[of P bs s] show ?thesis
    unfolding e e2 by (simp add: sdWrite_keeps)
next
  case (Hangs t)
  then have e: "state_of (storeData P bs m1 m2 s) = t"
    and e2: "state_of (storeBytes P bs s) = t"
    by (simp_all add: storeData_def state_of_def)
  from storeBytes_rtc_step[of P bs s] show ?thesis
    unfolding e e2 by simp
qed

text \<open>
  Claim C7. A byte adds an \<open>rtc.setTime\<close> call only if the sync-required flag was
  set and the validUTC bit of the frame is set; it adds exactly one call, sets
  \<open>rtcSyncFlag\<close> and clears the sync-required flag. A whole call of \<open>storeData\<close>,
  whether it returns or hangs, adds at most one call when the flag is set on entry and
  none when it is clear, and never sets the flag. The tail of \<open>loop\<close> sets the flag
  when the alarm flag is raised, and when the sleep conditions are met (after
  \<open>goToSleep\<close> returns), whatever \<open>openNewLogFile\<close>, \<open>configureRtc\<close> and
  \<open>goToSleep\<close> do.
\<close>

theorem rtc_sync_only_when_required:
  "(\<forall>s'. storeByte P incoming s = Returns s' \<and> rtc_calls s' \<noteq> rtc_calls s \<longrightarrow>
        rtcSyncRequiredFlag s
      \<and> (UBXbuffer (processIncoming P incoming s) 25 AND 0x04) = 0x04
      \<and> length (rtc_calls s') = length (rtc_calls s) + 1
      \<and> rtcSyncFlag s' \<and> \<not> rtcSyncRequiredFlag s')
   \<and> length (rtc_calls (state_of (storeData P bytes millisA millisB s)))
        \<le> length (rtc_calls s) + (if rtcSyncRequiredFlag s then 1 else 0)
   \<and> (\<not> rtcSyncRequiredFlag s \<longrightarrow>
        rtc_calls (state_of (storeData P bytes millisA millisB s)) = rtc_calls s
      \<and> \<not> rtcSyncRequiredFlag (state_of (storeData P bytes millisA millisB s)))
   \<and> (alarmFlag s \<longrightarrow>
        rtcSyncRequiredFlag (loopTail openNewLogFile configureRtc goToSleep timeNow s))
   \<and> (settings_usSleepDuration (loopAlarm openNewLogFile configureRtc s) > 0
        \<and> timeNow > measurementStartTime (loopAlarm openNewLogFile configureRtc s)
             + settings_usLoggingDuration (loopAlarm openNewLogFile configureRtc s) div 1000 \<longrightarrow>
        rtcSyncRequiredFlag (loopTail openNewLogFile configureRtc goToSleep timeNow s))"
proof (intro conjI allI impI)
  fix s'
  assume a: "storeByte P incoming s = Returns s' \<and> rtc_calls s' \<noteq> rtc_calls s"
  let ?t = "processIncoming P incoming s"
  from a have s': "s' = classifyFrame ?t"
    by (auto simp add: storeByte_def Let_def split: if_splits)
  from a s' have ch: "rtc_calls (classifyFrame ?t) \<noteq> rtc_calls ?t" by simp
  with classifyFrame_rtc_cases[of ?t]
  have c: "rtcSyncRequiredFlag ?t \<and> (UBXbuffer ?t 25 AND 0x04) = 0x04
       \<and> \<not> rtcSyncRequiredFlag (classifyFrame ?t) \<and> rtcSyncFlag (classifyFrame ?t)
       \<and> length (rtc_calls (classifyFrame ?t)) = length (rtc_calls ?t) + 1"
    by auto
  from c show "rtcSyncRequiredFlag s" by simp
  from c show "(UBXbuffer ?t 25 AND 0x04) = 0x04" by blast
  from c show "length (rtc_calls s') = length (rtc_calls s) + 1" by (simp add: s')
  from c show "rtcSyncFlag s'" by (simp add: s')
  from c show "\<not> rtcSyncRequiredFlag s'" by (simp add: s')
next
  show "length (rtc_calls (state_of (storeData P bytes millisA millisB s)))
        \<le> length (rtc_calls s) + (if rtcSyncRequiredFlag s then 1 else 0)"
    using storeData_rtc_step[of P bytes millisA millisB s] by auto
next
  assume n: "\<not> rtcSyncRequiredFlag s"
  with storeData_rtc_step[of P bytes millisA millisB s]
  show "rtc_calls (state_of (storeData P bytes millisA millisB s)) = rtc_calls s"
    by blast
  from n storeData_rtc_step[of P bytes millisA millisB s]
  show "\<not> rtcSyncRequiredFlag (state_of (storeData P bytes millisA millisB s))"
    by blast
next
  assume "alarmFlag s"
  then show "rtcSyncRequiredFlag (loopTail openNewLogFile configureRtc goToSleep timeNow s)"
    by (simp add: loopTail_def loopAlarm_def loopSleep_def Let_def)
next
  assume "settings_usSleepDuration (loopAlarm openNewLogFile configureRtc s) > 0
        \<and> timeNow > measurementStartTime (loopAlarm openNewLogFile configureRtc s)
             + settings_usLoggingDuration (loopAlarm openNewLogFile configureRtc s) div 1000"
  then show "rtcSyncRequiredFlag (loopTail openNewLogFile configureRtc goToSleep timeNow s)"
    by (simp add: loopTail_def loopSleep_def Let_def)
qed

theorem rtc_sync_only_when_required_witness:
  "(\<exists>s'. storeByte processUbx 0x3B timeutc_pending = Returns s'
        \<and> rtc_calls s' \<noteq> rtc_calls timeutc_pending
        \<and> rtcSyncRequiredFlag timeutc_pending \<and> \<not> rtcSyncRequiredFlag s')
   \<and> \<not> rtcSyncRequiredFlag synced_pending
   \<and> rtc_calls (state_of (storeData processUbx [0x3B] 0 0 synced_pending)) = []
   \<and> alarmFlag alarm_raised \<and> \<not> rtcSyncRequiredFlag alarm_raised
   \<and> rtcSyncRequiredFlag (loopTail (\<lambda>s. s) (\<lambda>s. s) (\<lambda>s. s) 0 alarm_raised)
   \<and> \<not> alarmFlag sleep_due \<and> \<not> rtcSyncRequiredFlag sleep_due
   \<and> rtcSyncRequiredFlag (loopTail (\<lambda>s. s) (\<lambda>s. s) (\<lambda>s. s) 70000 sleep_due)"
proof -
  let ?s' = "classifyFrame (processIncoming processUbx 0x3B timeutc_pending)"
  have run: "storeByte processUbx 0x3B timeutc_pending = Returns ?s'"
    by (simp add: storeByte_def Let_def timeutc_pending_def logger0_def UBXbufferSize_def)
  have rc: "rtc_calls ?s' = [SetTime 12 34 56 0 10 3 21]"
    by (simp add: classifyFrame_def syncRtc_from_frame_def Let_def
          timeutc_pending_def logger0_def UBX_CLASS_ACK_def UBX_CLASS_NAV_def UBX_NAV_TIMEUTC_def
          centis_def nanos_unsigned32_def rtcYear_def)
  have r0: "rtc_calls timeutc_pending = []"
    by (simp add: timeutc_pending_def logger0_def)
  from run rc r0 have h: "storeByte processUbx 0x3B timeutc_pending = Returns ?s'
      \<and> rtc_calls ?s' \<noteq> rtc_calls timeutc_pending"
    by simp
  from rtc_sync_only_when_required[where P = processUbx and incoming = "0x3B"
      and s = timeutc_pending] h
  have a: "rtcSyncRequiredFlag timeutc_pending \<and> \<not> rtcSyncRequiredFlag ?s'"
    by blast
  have n: "\<not> rtcSyncRequiredFlag synced_pending" "rtc_calls synced_pending = []"
    by (simp_all add: synced_pending_def timeutc_pending_def logger0_def)
  from rtc_sync_only_when_required[where P = processUbx and bytes = "[0x3B]"
      and millisA = 0 and millisB = 0 and s = synced_pending] n
  have b: "rtc_calls (state_of (storeData processUbx [0x3B] 0 0 synced_pending)) = []"
    by simp
  have al: "alarmFlag alarm_raised" "\<not> rtcSyncRequiredFlag alarm_raised"
    by (simp_all add: alarm_raised_def logger0_def)
  from rtc_sync_only_when_required[where s = alarm_raised and openNewLogFile = "\<lambda>s. s"
      and configureRtc = "\<lambda>s. s" and goToSleep = "\<lambda>s. s" and timeNow = 0] al
  have c: "rtcSyncRequiredFlag (loopTail (\<lambda>s. s) (\<lambda>s. s) (\<lambda>s. s) 0 alarm_raised)"
    by blast
  have sl: "\<not> alarmFlag sleep_due" "\<not> rtcSyncRequiredFlag sleep_due"
    by (simp_all add: sleep_due_def logger0_def)
  have due: "settings_usSleepDuration (loopAlarm (\<lambda>s. s) (\<lambda>s. s) sleep_due) > 0
        \<and> 70000 > measurementStartTime (loopAlarm (\<lambda>s. s) (\<lambda>s. s) sleep_due)
             + settings_usLoggingDuration (loopAlarm (\<lambda>s. s) (\<lambda>s. s) sleep_due) div 1000"
    by (simp add: loopAlarm_def sleep_due_def logger0_def)
  from rtc_sync_only_when_required[where s = sleep_due and openNewLogFile = "\<lambda>s. s"
      and configureRtc = "\<lambda>s. s" and goToSleep = "\<lambda>s. s" and timeNow = 70000] due
  have d: "rtcSyncRequiredFlag (loopTail (\<lambda>s. s) (\<lambda>s. s) (\<lambda>s. s) 70000 sleep_due)"
    by blast
  from run rc r0 a n(1) b al c sl d show ?thesis by simp
qed

subsection \<open>Draining the staging buffer into blocks\<close>

lemma drain_step:
  "drainToSD (Suc n) s =
     (let s1 = s\<lparr>GNSSbuffer := snd (read_char (GNSSbuffer s)),
                 SDbuffer := (SDbuffer s)(SDpointer s := fst (read_char (GNSSbuffer s))),
                 SDpointer := Suc (SDpointer s)\<rparr>
      in if Suc (SDpointer s) = SDpacket
         then s1\<lparr>SDpointer := 0,
                 file_calls := file_calls s @ [FileWrite (map (SDbuffer s1) [0..<SDpacket])]\<rparr>
         else drainToSD n s1)"
  by (simp add: Let_def split_def)

lemma drain_shape:
  "SDpointer s < SDpacket \<Longrightarrow>
     (file_calls (drainToSD n s) = file_calls s \<and> SDpointer (drainToSD n s) < SDpacket)
     \<or> (\<exists>b. length b = SDpacket \<and> file_calls (drainToSD n s) = file_calls s @ [FileWrite b]
            \<and> SDpointer (drainToSD n s) = 0)"
proof (induction n arbitrary: s)
  case 0
  then show ?case by simp
next
  case (Suc n)
  let ?s1 = "s\<lparr>GNSSbuffer := snd (read_char (GNSSbuffer s)),
                 SDbuffer := (SDbuffer s)(SDpointer s := fst (read_char (GNSSbuffer s))),
                 SDpointer := Suc (SDpointer s)\<rparr>"
  show ?case
  proof (cases "Suc (SDpointer s) = SDpacket")
    case True
    then show ?thesis by (simp add: drain_step Let_def del: drainToSD.simps)
  next
    case False
    with Suc.prems have "SDpointer ?s1 < SDpacket" by simp
    from Suc.IH[OF this] False show ?thesis
      by (simp add: drain_step Let_def del: drainToSD.simps)
  qed
qed

lemma drain_content:
  "SDpointer s < SDpacket \<Longrightarrow> n \<le> length (rb_data (GNSSbuffer s)) \<Longrightarrow>
     rb_data (GNSSbuffer (drainToSD n s)) =
        drop (min n (SDpacket - SDpointer s)) (rb_data (GNSSbuffer s))
   \<and> (if SDpointer s + n < SDpacket
       then file_calls (drainToSD n s) = file_calls s
          \<and> SDpointer (drainToSD n s) = SDpointer s + n
          \<and> sd_pending (drainToSD n s) = sd_pending s @ take n (rb_data (GNSSbuffer s))
       else file_calls (drainToSD n s) =
              file_calls s @ [FileWrite (sd_pending s @ take (SDpacket - SDpointer s) (rb_data (GNSSbuffer s)))]
          \<and> SDpointer (drainToSD n s) = 0)"
proof (induction n arbitrary: s)
  case 0
  then show ?case by (simp add: sd_pending_def)
next
  case (Suc n)
  from Suc.prems obtain c cs where data: "rb_data (GNSSbuffer s) = c # cs"
    by (cases "rb_data (GNSSbuffer s)") auto
  let ?s1 = "s\<lparr>GNSSbuffer := snd (read_char (GNSSbuffer s)),
                 SDbuffer := (SDbuffer s)(SDpointer s := fst (read_char (GNSSbuffer s))),
                 SDpointer := Suc (SDpointer s)\<rparr>"
  have rd: "read_char (GNSSbuffer s) = (c, (GNSSbuffer s)\<lparr>rb_data := cs\<rparr>)"
    by (simp add: read_char_def data)
  have pend1: "sd_pending ?s1 = sd_pending s @ [c]"
    by (simp add: sd_pending_def rd)
  show ?case
  proof (cases "Suc (SDpointer s) = SDpacket")
    case True
    then have k: "SDpacket - SDpointer s = Suc 0" by arith
    have "map (SDbuffer ?s1) [0..<SDpacket] = sd_pending ?s1"
      using True by (simp add: sd_pending_def)
    with True k pend1 show ?thesis
      by (simp add: drain_step Let_def data rd del: drainToSD.simps)
  next
    case False
    define s1 where "s1 = ?s1"
    have lt: "SDpointer s1 < SDpacket" using False Suc.prems by (simp add: s1_def)
    have le: "n \<le> length (rb_data (GNSSbuffer s1))"
      using Suc.prems by (simp add: rd data s1_def)
    have p1: "SDpointer s1 = Suc (SDpointer s)" by (simp add: s1_def)
    have f1: "file_calls s1 = file_calls s" by (simp add: s1_def)
    have d1: "rb_data (GNSSbuffer s1) = cs" by (simp add: s1_def rd)
    have q1: "sd_pending s1 = sd_pending s @ [c]" using pend1 by (simp add: s1_def)
    obtain k where k: "SDpacket - SDpointer s = Suc k"
      using Suc.prems(1) by (metis Suc_diff_Suc)
    then have k': "SDpacket - Suc (SDpointer s) = k" by arith
    have eq: "drainToSD (Suc n) s = drainToSD n s1"
      using False by (simp add: drain_step Let_def s1_def del: drainToSD.simps)
    show ?thesis
    proof (cases "SDpointer s + Suc n < SDpacket")
      case True
      then have "SDpointer s1 + n < SDpacket" by (simp add: p1)
      with Suc.IH[OF lt le] True show ?thesis
        unfolding eq by (simp add: p1 f1 d1 q1 k k' data)
    next
      case nlt: False
      then have "\<not> SDpointer s1 + n < SDpacket" by (simp add: p1)
      with Suc.IH[OF lt le] nlt show ?thesis
        unfolding eq by (simp add: p1 f1 d1 q1 k k' data)
    qed
  qed
qed

lemma forceSync_due:
  "millisA - lastDataLogSyncTime s > 500 \<Longrightarrow>
     file_calls (forceSync millisA millisB s) =
       file_calls s @ (if 0 < SDpointer s then [FileWrite (sd_pending s)] else []) @ [FileSync]
   \<and> SDpointer (forceSync millisA millisB s) = 0
   \<and> lastDataLogSyncTime (forceSync millisA millisB s) = millisB"
  by (simp add: forceSync_def Let_def sd_pending_def)

lemma forceSync_not_due:
  "\<not> millisA - lastDataLogSyncTime s > 500 \<Longrightarrow> forceSync millisA millisB s = s"
  by (simp add: forceSync_def)

lemma sdWrite_on:
  "settings_logData s \<and> online_microSd s \<and> online_dataLogging s \<Longrightarrow>
   \<exists>s1. sdWrite millisA millisB s = forceSync millisA millisB (drainToSD (length (rb_data (GNSSbuffer s))) s1)
      \<and> SDpointer s1 = SDpointer s \<and> SDbuffer s1 = SDbuffer s \<and> GNSSbuffer s1 = GNSSbuffer s
      \<and> file_calls s1 = file_calls s \<and> lastDataLogSyncTime s1 = lastDataLogSyncTime s"
proof (cases "int (available (GNSSbuffer s)) > maxGNSSbufferAvailable s")
  case True
  assume on: "settings_logData s \<and> online_microSd s \<and> online_dataLogging s"
  let ?s1 = "s\<lparr>maxGNSSbufferAvailable := int (available (GNSSbuffer s))\<rparr>"
  have "sdWrite millisA millisB s =
          forceSync millisA millisB (drainToSD (length (rb_data (GNSSbuffer s))) ?s1)"
    using on True by (simp add: sdWrite_def Let_def available_def)
  then show ?thesis by (intro exI[of _ ?s1]) simp
next
  case False
  assume on: "settings_logData s \<and> online_microSd s \<and> online_dataLogging s"
  have "sdWrite millisA millisB s =
          forceSync millisA millisB (drainToSD (length (rb_data (GNSSbuffer s))) s)"
    using on False by (simp add: sdWrite_def Let_def available_def)
  then show ?thesis by (intro exI[of _ s]) simp
qed

lemma drainToSD_last [simp]:
  "lastDataLogSyncTime (drainToSD n s) = lastDataLogSyncTime s"
  by (induction n arbitrary: s) (simp_all add: Let_def split_def)

lemma drainToSD_flags [simp]:
  "settings_logData (drainToSD n s) = settings_logData s"
  "online_microSd (drainToSD n s) = online_microSd s"
  "online_dataLogging (drainToSD n s) = online_dataLogging s"
  by (induction n arbitrary: s) (simp_all add: Let_def split_def)

lemma forceSync_flags [simp]:
  "settings_logData (forceSync a b s) = settings_logData s"
  "online_microSd (forceSync a b s) = online_microSd s"
  "online_dataLogging (forceSync a b s) = online_dataLogging s"
  "GNSSbuffer (forceSync a b s) = GNSSbuffer s"
  by (simp_all add: forceSync_def Let_def)

lemma sdWrite_on_effect:
  assumes on: "settings_logData s \<and> online_microSd s \<and> online_dataLogging s"
      and inv: "SDpointer s < SDpacket"
  shows "rb_data (GNSSbuffer (sdWrite millisA millisB s)) =
           drop (min (length (rb_data (GNSSbuffer s))) (SDpacket - SDpointer s)) (rb_data (GNSSbuffer s))
       \<and> settings_logData (sdWrite millisA millisB s) \<and> online_microSd (sdWrite millisA millisB s)
       \<and> online_dataLogging (sdWrite millisA millisB s)
       \<and> (if millisA - lastDataLogSyncTime s > 500
           then (if SDpointer s + length (rb_data (GNSSbuffer s)) < SDpacket
                 then file_calls (sdWrite millisA millisB s) =
                        file_calls s
                        @ (if 0 < SDpointer s + length (rb_data (GNSSbuffer s))
                           then [FileWrite (sd_pending s @ rb_data (GNSSbuffer s))] else [])
                        @ [FileSync]
                 else file_calls (sdWrite millisA millisB s) =
                        file_calls s
                        @ [FileWrite (sd_pending s
                              @ take (SDpacket - SDpointer s) (rb_data (GNSSbuffer s))),
                           FileSync])
              \<and> SDpointer (sdWrite millisA millisB s) = 0
              \<and> lastDataLogSyncTime (sdWrite millisA millisB s) = millisB
           else (if SDpointer s + length (rb_data (GNSSbuffer s)) < SDpacket
                 then file_calls (sdWrite millisA millisB s) = file_calls s
                    \<and> SDpointer (sdWrite millisA millisB s)
                        = SDpointer s + length (rb_data (GNSSbuffer s))
                    \<and> sd_pending (sdWrite millisA millisB s) = sd_pending s @ rb_data (GNSSbuffer s)
                 else file_calls (sdWrite millisA millisB s) =
                        file_calls s
                        @ [FileWrite (sd_pending s
                              @ take (SDpacket - SDpointer s) (rb_data (GNSSbuffer s)))]
                    \<and> SDpointer (sdWrite millisA millisB s) = 0)
              \<and> lastDataLogSyncTime (sdWrite millisA millisB s) = lastDataLogSyncTime s)"
proof -
  let ?n = "length (rb_data (GNSSbuffer s))"
  from sdWrite_on[OF on, of millisA millisB] obtain s1 where
    eq: "sdWrite millisA millisB s = forceSync millisA millisB (drainToSD ?n s1)"
    and p: "SDpointer s1 = SDpointer s" and b: "SDbuffer s1 = SDbuffer s"
    and g: "GNSSbuffer s1 = GNSSbuffer s" and f: "file_calls s1 = file_calls s"
    and l: "lastDataLogSyncTime s1 = lastDataLogSyncTime s"
    by blast
  define d where "d = drainToSD ?n s1"
  have q: "sd_pending s1 = sd_pending s" by (simp add: sd_pending_def p b)
  have dc: "rb_data (GNSSbuffer d) = drop (min ?n (SDpacket - SDpointer s)) (rb_data (GNSSbuffer s))
   \<and> (if SDpointer s + ?n < SDpacket
       then file_calls d = file_calls s \<and> SDpointer d = SDpointer s + ?n
          \<and> sd_pending d = sd_pending s @ take ?n (rb_data (GNSSbuffer s))
       else file_calls d = file_calls s @ [FileWrite (sd_pending s @ take (SDpacket - SDpointer s) (rb_data (GNSSbuffer s)))]
          \<and> SDpointer d = 0)"
    using drain_content[of s1 ?n] inv unfolding d_def p g f q by simp
  have dl: "lastDataLogSyncTime d = lastDataLogSyncTime s" by (simp add: d_def l)
  have e: "sdWrite millisA millisB s = forceSync millisA millisB d" by (simp add: eq d_def)
  have flags: "settings_logData (sdWrite millisA millisB s) \<and> online_microSd (sdWrite millisA millisB s)
       \<and> online_dataLogging (sdWrite millisA millisB s)"
    using on by (simp add: sdWrite_def Let_def)
  have gd: "rb_data (GNSSbuffer (sdWrite millisA millisB s)) =
           drop (min ?n (SDpacket - SDpointer s)) (rb_data (GNSSbuffer s))"
    using dc by (simp add: e)
  show ?thesis
  proof (cases "millisA - lastDataLogSyncTime s > 500")
    case True
    then have "millisA - lastDataLogSyncTime d > 500" by (simp add: dl)
    from forceSync_due[OF this, of millisB] dc True flags gd show ?thesis
      unfolding e by (cases "SDpointer s + ?n < SDpacket") auto
  next
    case False
    then have "\<not> millisA - lastDataLogSyncTime d > 500" by (simp add: dl)
    from forceSync_not_due[OF this, of millisB] dc False flags gd dl show ?thesis
      unfolding e by (cases "SDpointer s + ?n < SDpacket") auto
  qed
qed

lemma sdWrite_shape:
  assumes inv: "SDpointer s < SDpacket"
  shows "SDpointer (sdWrite millisA millisB s) < SDpacket
     \<and> (\<exists>new. file_calls (sdWrite millisA millisB s) = file_calls s @ new
          \<and> (new = [] \<or> new = [FileSync]
             \<or> (\<exists>b. length b = SDpacket \<and> SDpointer (sdWrite millisA millisB s) = 0
                   \<and> (new = [FileWrite b] \<or> new = [FileWrite b, FileSync]))
             \<or> (\<exists>b. 0 < length b \<and> length b < SDpacket
                   \<and> SDpointer (sdWrite millisA millisB s) = 0
                   \<and> new = [FileWrite b, FileSync])))"
proof (cases "settings_logData s \<and> online_microSd s \<and> online_dataLogging s")
  case False
  then have "sdWrite millisA millisB s = s\<lparr>GNSSbuffer := (GNSSbuffer s)\<lparr>rb_data := []\<rparr>\<rparr>"
    by (rule sdWrite_off)
  then show ?thesis using inv by simp
next
  case True
  let ?n = "length (rb_data (GNSSbuffer s))"
  let ?s' = "sdWrite millisA millisB s"
  have len: "length (sd_pending s) = SDpointer s" by (simp add: sd_pending_def)
  note eff = sdWrite_on_effect[OF True inv, of millisA millisB]
  show ?thesis
  proof (cases "SDpointer s + ?n < SDpacket")
    case small: True
    show ?thesis
    proof (cases "millisA - lastDataLogSyncTime s > 500")
      case due: True
      from eff small due have
        f: "file_calls ?s' = file_calls s
              @ (if 0 < SDpointer s + ?n then [FileWrite (sd_pending s @ rb_data (GNSSbuffer s))] else [])
              @ [FileSync]"
        and p: "SDpointer ?s' = 0" by simp_all
      show ?thesis
      proof (cases "0 < SDpointer s + ?n")
        case True
        let ?b = "sd_pending s @ rb_data (GNSSbuffer s)"
        have "0 < length ?b \<and> length ?b < SDpacket \<and> SDpointer ?s' = 0
               \<and> file_calls ?s' = file_calls s @ [FileWrite ?b, FileSync]"
          using True small f p len by simp
        moreover have "SDpointer ?s' < SDpacket" using p inv by simp
        ultimately show ?thesis by blast
      next
        case False
        with f p inv show ?thesis by simp
      qed
    next
      case notdue: False
      from eff small notdue have "file_calls ?s' = file_calls s"
        and "SDpointer ?s' = SDpointer s + ?n" by simp_all
      with small show ?thesis by simp
    qed
  next
    case big: False
    let ?b = "sd_pending s @ take (SDpacket - SDpointer s) (rb_data (GNSSbuffer s))"
    have lb: "length ?b = SDpacket" using big inv len by simp
    show ?thesis
    proof (cases "millisA - lastDataLogSyncTime s > 500")
      case due: True
      from eff big due have "file_calls ?s' = file_calls s @ [FileWrite ?b, FileSync]"
        and p: "SDpointer ?s' = 0" by simp_all
      moreover have "SDpointer ?s' < SDpacket" using p inv by simp
      ultimately show ?thesis using lb by blast
    next
      case notdue: False
      from eff big notdue have "file_calls ?s' = file_calls s @ [FileWrite ?b]"
        and p: "SDpointer ?s' = 0" by simp_all
      moreover have "SDpointer ?s' < SDpacket" using p inv by simp
      ultimately show ?thesis using lb by blast
    qed
  qed
qed

text \<open>
  Claim C5. From a state whose block assembly pointer is below the block size (as it
  is initially, and as every call leaves it), a call of \<open>storeData\<close> that returns
  adds to the calls made on the file one of: nothing; a sync; one write of exactly
  \<open>SDpacket = 512\<close> bytes; one such write followed by a sync; or one write of fewer
  than 512 bytes followed by a sync. So a call issues at most one full-block write, a
  full-block write has exactly 512 bytes and leaves the pointer at zero, and a shorter
  write only comes from the forced sync.
\<close>

theorem one_block_write_per_call:
  assumes inv: "SDpointer s < SDpacket"
  shows "\<forall>s'. storeData P incoming millisA millisB s = Returns s' \<longrightarrow>
     SDpointer s' < SDpacket
     \<and> (\<exists>new. file_calls s' = file_calls s @ new
          \<and> (new = [] \<or> new = [FileSync]
             \<or> (\<exists>b. length b = SDpacket \<and> SDpointer s' = 0
                   \<and> (new = [FileWrite b] \<or> new = [FileWrite b, FileSync]))
             \<or> (\<exists>b. 0 < length b \<and> length b < SDpacket \<and> SDpointer s' = 0
                   \<and> new = [FileWrite b, FileSync])))"
proof (intro allI impI)
  fix s'
  assume r: "storeData P incoming millisA millisB s = Returns s'"
  then obtain t where t: "storeBytes P incoming s = Returns t" and s': "s' = sdWrite millisA millisB t"
    by (auto simp add: storeData_def split: outcome.splits)
  from t have "state_of (storeBytes P incoming s) = t" by (simp add: state_of_def)
  with storeBytes_frame[of P incoming s]
  have f: "file_calls t = file_calls s" and p: "SDpointer t = SDpointer s" by simp_all
  from inv p have "SDpointer t < SDpacket" by simp
  from sdWrite_shape[OF this, of millisA millisB] show
    "SDpointer s' < SDpacket
     \<and> (\<exists>new. file_calls s' = file_calls s @ new
          \<and> (new = [] \<or> new = [FileSync]
             \<or> (\<exists>b. length b = SDpacket \<and> SDpointer s' = 0
                   \<and> (new = [FileWrite b] \<or> new = [FileWrite b, FileSync]))
             \<or> (\<exists>b. 0 < length b \<and> length b < SDpacket \<and> SDpointer s' = 0
                   \<and> new = [FileWrite b, FileSync])))"
    unfolding s' f .
qed

theorem one_block_write_per_call_witness:
  "SDpointer staged600 < SDpacket
   \<and> storeData processUbx [] 100 100 staged600 = Returns (sdWrite 100 100 staged600)
   \<and> SDpointer (sdWrite 100 100 staged600) < SDpacket
   \<and> (\<exists>new. file_calls (sdWrite 100 100 staged600) = file_calls staged600 @ new
          \<and> (new = [] \<or> new = [FileSync]
             \<or> (\<exists>b. length b = SDpacket \<and> SDpointer (sdWrite 100 100 staged600) = 0
                   \<and> (new = [FileWrite b] \<or> new = [FileWrite b, FileSync]))
             \<or> (\<exists>b. 0 < length b \<and> length b < SDpacket
                   \<and> SDpointer (sdWrite 100 100 staged600) = 0
                   \<and> new = [FileWrite b, FileSync])))"
proof -
  have i: "SDpointer staged600 < SDpacket"
    by (simp add: staged600_def logger0_def SDpacket_def)
  have r: "storeData processUbx [] 100 100 staged600 = Returns (sdWrite 100 100 staged600)"
    by (simp add: storeData_def)
  from one_block_write_per_call[OF i, of processUbx "[]" 100 100] r i show ?thesis
    by blast
qed


lemma storeByte_sync_time:
  "lastDataLogSyncTime (state_of (storeByte P b s)) = lastDataLogSyncTime s"
  by (simp add: storeByte_def state_of_def Let_def classifyFrame_def syncRtc_from_frame_def
      processIncoming_def split_def)

lemma storeBytes_sync_time:
  "lastDataLogSyncTime (state_of (storeBytes P bs s)) = lastDataLogSyncTime s"
proof (induction bs arbitrary: s)
  case Nil
  show ?case by (simp add: state_of_def)
next
  case (Cons b bs)
  show ?case
  proof (cases "storeByte P b s")
    case (Returns s')
    with storeByte_sync_time[of P b s] Cons.IH[of s'] show ?thesis
      by (simp add: storeBytes_Cons state_of_def)
  next
    case (Hangs s')
    with storeByte_sync_time[of P b s] show ?thesis
      by (simp add: storeBytes_Cons state_of_def)
  qed
qed

lemma storeBytes_returns_frame:
  assumes p: "storeBytes P bs s = Returns t"
  shows "file_calls t = file_calls s" "SDpointer t = SDpointer s" "SDbuffer t = SDbuffer s"
    "settings_logData t = settings_logData s" "online_microSd t = online_microSd s"
    "online_dataLogging t = online_dataLogging s"
    "lastDataLogSyncTime t = lastDataLogSyncTime s" "sd_pending t = sd_pending s"
proof -
  from p have e: "state_of (storeBytes P bs s) = t" by (simp add: state_of_def)
  from storeBytes_frame[of P bs s] storeBytes_sync_time[of P bs s]
  show "file_calls t = file_calls s" "SDpointer t = SDpointer s" "SDbuffer t = SDbuffer s"
    "settings_logData t = settings_logData s" "online_microSd t = online_microSd s"
    "online_dataLogging t = online_dataLogging s"
    "lastDataLogSyncTime t = lastDataLogSyncTime s"
    unfolding e by simp_all
  then show "sd_pending t = sd_pending s" by (simp add: sd_pending_def)
qed

lemma storeData_returns:
  "storeBytes P bs s = Returns t \<Longrightarrow> storeData P bs m1 m2 s = Returns (sdWrite m1 m2 t)"
  by (simp add: storeData_def)

lemma stream_parsed:
  "\<exists>t. storeBytes processUbx (ack_frame @ timeutc_frame) logger0 = Returns t
       \<and> rb_data (GNSSbuffer t) = timeutc_frame"
  by (simp add: ack_frame_def timeutc_frame_def logger0_def storeByte_def processIncoming_def
        classifyFrame_def ubx_checksum_def UBXbufferSize_def Let_def numeral_2_eq_2[symmetric]
        UBX_CLASS_ACK_def UBX_CLASS_NAV_def UBX_NAV_TIMEUTC_def availableForStore_def
        available_def store_char_def frame_bytes_def upt_conv_Cons)


text \<open>
  Claim C4. Take a call of \<open>storeData\<close> made with logging enabled and the card and
  the data logging online, whose parsing stage does not stop the program, and let the
  staging buffer hold \<open>rb_data (GNSSbuffer t)\<close> once the incoming bytes have been
  parsed. The call returns. When its reading of \<open>millis()\<close> is more than 500 past
  \<open>lastDataLogSyncTime\<close> (in the 32-bit unsigned arithmetic of the code), the calls it
  makes on the file end with a write of whatever is left in the block assembly buffer
  after the drain (none if it is empty, as after a block has just been completed)
  followed by \<open>file.sync\<close>, and it resets the pointer and records the time. In
  particular, with one frame of 500 bytes staged and an empty assembly buffer: a call
  before the timer fires makes no call on the file and leaves the 500 bytes in the
  assembly buffer, and the next call after the timer has fired, whatever it parses
  provided that it stages nothing, issues exactly one write of those 500 bytes
  followed by a sync; a single call with the timer fired does the same at once.
\<close>

theorem forced_sync_writes_partial_block:
  assumes on: "settings_logData s \<and> online_microSd s \<and> online_dataLogging s"
      and inv: "SDpointer s < SDpacket"
      and parsed: "storeBytes P incoming s = Returns t"
  shows "\<exists>s'. storeData P incoming millisA millisB s = Returns s'
       \<and> (millisA - lastDataLogSyncTime s > 500 \<longrightarrow>
            (if SDpointer s + length (rb_data (GNSSbuffer t)) < SDpacket
             then file_calls s' =
                    file_calls s
                    @ (if 0 < SDpointer s + length (rb_data (GNSSbuffer t))
                       then [FileWrite (sd_pending s @ rb_data (GNSSbuffer t))] else [])
                    @ [FileSync]
             else file_calls s' =
                    file_calls s
                    @ [FileWrite (sd_pending s
                          @ take (SDpacket - SDpointer s) (rb_data (GNSSbuffer t))),
                       FileSync])
          \<and> SDpointer s' = 0
          \<and> lastDataLogSyncTime s' = millisB)
       \<and> (rb_data (GNSSbuffer t) = frame \<and> length frame = 500 \<and> SDpointer s = 0 \<longrightarrow>
            (\<not> millisA - lastDataLogSyncTime s > 500 \<longrightarrow>
                file_calls s' = file_calls s
              \<and> sd_pending s' = frame
              \<and> (\<forall>incoming2 t2. millisC - lastDataLogSyncTime s > 500
                    \<and> storeBytes P incoming2 s' = Returns t2
                    \<and> rb_data (GNSSbuffer t2) = [] \<longrightarrow>
                    (\<exists>s''. storeData P incoming2 millisC millisD s' = Returns s''
                       \<and> file_calls s'' = file_calls s @ [FileWrite frame, FileSync])))
          \<and> (millisA - lastDataLogSyncTime s > 500 \<longrightarrow>
                file_calls s' = file_calls s @ [FileWrite frame, FileSync]))"
proof -
  let ?s' = "sdWrite millisA millisB t"
  note k = storeBytes_returns_frame[OF parsed]
  have ont: "settings_logData t \<and> online_microSd t \<and> online_dataLogging t"
    using on k by simp
  have invt: "SDpointer t < SDpacket" using inv k by simp
  note eff = sdWrite_on_effect[OF ont invt, of millisA millisB, unfolded k]
  have ret: "storeData P incoming millisA millisB s = Returns ?s'"
    using parsed by (rule storeData_returns)
  have A: "millisA - lastDataLogSyncTime s > 500 \<longrightarrow>
            (if SDpointer s + length (rb_data (GNSSbuffer t)) < SDpacket
             then file_calls ?s' =
                    file_calls s
                    @ (if 0 < SDpointer s + length (rb_data (GNSSbuffer t))
                       then [FileWrite (sd_pending s @ rb_data (GNSSbuffer t))] else [])
                    @ [FileSync]
             else file_calls ?s' =
                    file_calls s
                    @ [FileWrite (sd_pending s
                          @ take (SDpacket - SDpointer s) (rb_data (GNSSbuffer t))),
                       FileSync])
          \<and> SDpointer ?s' = 0
          \<and> lastDataLogSyncTime ?s' = millisB"
    using eff by simp
  have B: "rb_data (GNSSbuffer t) = frame \<and> length frame = 500 \<and> SDpointer s = 0 \<longrightarrow>
            (\<not> millisA - lastDataLogSyncTime s > 500 \<longrightarrow>
                file_calls ?s' = file_calls s
              \<and> sd_pending ?s' = frame
              \<and> (\<forall>incoming2 t2. millisC - lastDataLogSyncTime s > 500
                    \<and> storeBytes P incoming2 ?s' = Returns t2
                    \<and> rb_data (GNSSbuffer t2) = [] \<longrightarrow>
                    (\<exists>s''. storeData P incoming2 millisC millisD ?s' = Returns s''
                       \<and> file_calls s'' = file_calls s @ [FileWrite frame, FileSync])))
          \<and> (millisA - lastDataLogSyncTime s > 500 \<longrightarrow>
                file_calls ?s' = file_calls s @ [FileWrite frame, FileSync])"
  proof (intro impI conjI allI)
    assume fr: "rb_data (GNSSbuffer t) = frame \<and> length frame = 500 \<and> SDpointer s = 0"
    then have small: "SDpointer s + length (rb_data (GNSSbuffer t)) < SDpacket"
      and pe: "sd_pending s = []"
      by (simp_all add: SDpacket_def sd_pending_def)
    {
      assume notdue: "\<not> millisA - lastDataLogSyncTime s > 500"
      from eff notdue small pe fr
      have f2: "file_calls ?s' = file_calls s" and p2: "SDpointer ?s' = 500"
        and q2: "sd_pending ?s' = frame"
        and l2: "lastDataLogSyncTime ?s' = lastDataLogSyncTime s"
        and on2: "settings_logData ?s' \<and> online_microSd ?s' \<and> online_dataLogging ?s'"
        by simp_all
      show "file_calls ?s' = file_calls s" by (rule f2)
      show "sd_pending ?s' = frame" by (rule q2)
      {
        fix incoming2 t2
        assume h: "millisC - lastDataLogSyncTime s > 500
                    \<and> storeBytes P incoming2 ?s' = Returns t2
                    \<and> rb_data (GNSSbuffer t2) = []"
        then have p2': "storeBytes P incoming2 ?s' = Returns t2"
          and e2: "rb_data (GNSSbuffer t2) = []"
          and due2: "millisC - lastDataLogSyncTime s > 500" by blast+
        note k2 = storeBytes_returns_frame[OF p2']
        have on3: "settings_logData t2 \<and> online_microSd t2 \<and> online_dataLogging t2"
          using on2 k2 by simp
        have inv3: "SDpointer t2 < SDpacket" using p2 k2 by (simp add: SDpacket_def)
        from sdWrite_on_effect[OF on3 inv3, of millisC millisD] due2
        have "file_calls (sdWrite millisC millisD t2) = file_calls s @ [FileWrite frame, FileSync]"
          by (simp add: k2 e2 f2 p2 q2 l2 SDpacket_def)
        with storeData_returns[OF p2', of millisC millisD]
        show "\<exists>s''. storeData P incoming2 millisC millisD ?s' = Returns s''
                       \<and> file_calls s'' = file_calls s @ [FileWrite frame, FileSync]"
          by blast
      }
    }
    {
      assume due: "millisA - lastDataLogSyncTime s > 500"
      with eff small pe fr
      show "file_calls ?s' = file_calls s @ [FileWrite frame, FileSync]"
        by simp
    }
  qed
  from ret A B show ?thesis by blast
qed


theorem forced_sync_writes_partial_block_witness:
  "settings_logData staged500 \<and> online_microSd staged500 \<and> online_dataLogging staged500
   \<and> SDpointer staged500 = 0 \<and> length (rb_data (GNSSbuffer staged500)) = 500
   \<and> storeBytes processUbx [] staged500 = Returns staged500
   \<and> \<not> 100 - lastDataLogSyncTime staged500 > 500
   \<and> 700 - lastDataLogSyncTime staged500 > 500
   \<and> (\<exists>s'. storeData processUbx [] 100 100 staged500 = Returns s'
         \<and> file_calls s' = [] \<and> sd_pending s' = replicate 500 0x55
         \<and> (\<exists>s''. storeData processUbx [] 700 700 s' = Returns s''
               \<and> file_calls s'' = [FileWrite (replicate 500 0x55), FileSync]))
   \<and> (\<exists>s'. storeData processUbx [] 700 700 staged500 = Returns s'
         \<and> file_calls s' = [FileWrite (replicate 500 0x55), FileSync]
         \<and> SDpointer s' = 0 \<and> lastDataLogSyncTime s' = 700)
   \<and> (\<exists>s'. storeData processUbx (ack_frame @ timeutc_frame) 700 700 logger0 = Returns s'
         \<and> file_calls s' = [FileWrite timeutc_frame, FileSync]
         \<and> SDpointer s' = 0 \<and> lastDataLogSyncTime s' = 700)"
proof -
  have on: "settings_logData staged500 \<and> online_microSd staged500 \<and> online_dataLogging staged500"
    by (simp add: staged500_def logger0_def)
  have inv: "SDpointer staged500 < SDpacket"
    by (simp add: staged500_def logger0_def SDpacket_def)
  have parsed: "storeBytes processUbx [] staged500 = Returns staged500" by simp
  have fr: "rb_data (GNSSbuffer staged500) = replicate 500 0x55
      \<and> length (replicate 500 (0x55 :: byte)) = 500 \<and> SDpointer staged500 = 0"
    by (simp add: staged500_def logger0_def)
  have t: "\<not> 100 - lastDataLogSyncTime staged500 > 500" "700 - lastDataLogSyncTime staged500 > 500"
    "file_calls staged500 = []"
    by (simp_all add: staged500_def logger0_def)
  let ?s1 = "sdWrite 100 100 staged500"
  have r1: "storeData processUbx [] 100 100 staged500 = Returns ?s1"
    by (simp add: storeData_def)
  have e1: "rb_data (GNSSbuffer ?s1) = []"
    using sdWrite_on_effect[OF on inv, of 100 100] fr by (simp add: SDpacket_def)
  have p1: "storeBytes processUbx [] ?s1 = Returns ?s1" by simp
  from forced_sync_writes_partial_block[OF on inv parsed, where millisA = 100 and millisB = 100
      and millisC = 700 and millisD = 700 and frame = "replicate 500 0x55"]
  obtain s' where s': "storeData processUbx [] 100 100 staged500 = Returns s'"
    and i: "rb_data (GNSSbuffer staged500) = replicate 500 0x55
             \<and> length (replicate 500 (0x55 :: byte)) = 500 \<and> SDpointer staged500 = 0 \<longrightarrow>
            (\<not> 100 - lastDataLogSyncTime staged500 > 500 \<longrightarrow>
                file_calls s' = file_calls staged500
              \<and> sd_pending s' = replicate 500 0x55
              \<and> (\<forall>incoming2 t2. 700 - lastDataLogSyncTime staged500 > 500
                    \<and> storeBytes processUbx incoming2 s' = Returns t2
                    \<and> rb_data (GNSSbuffer t2) = [] \<longrightarrow>
                    (\<exists>s''. storeData processUbx incoming2 700 700 s' = Returns s''
                       \<and> file_calls s'' = file_calls staged500
                            @ [FileWrite (replicate 500 0x55), FileSync])))"
    by blast
  from s' r1 have se: "s' = ?s1" by simp
  from i fr t(1) have a1: "file_calls s' = []" and a2: "sd_pending s' = replicate 500 0x55"
    and a3: "\<forall>incoming2 t2. 700 - lastDataLogSyncTime staged500 > 500
                    \<and> storeBytes processUbx incoming2 s' = Returns t2
                    \<and> rb_data (GNSSbuffer t2) = [] \<longrightarrow>
                    (\<exists>s''. storeData processUbx incoming2 700 700 s' = Returns s''
                       \<and> file_calls s'' = file_calls staged500
                            @ [FileWrite (replicate 500 0x55), FileSync])"
    using t(3) by simp_all
  from a3[rule_format, of "[]" ?s1] t(2) p1 e1 se
  have a4: "\<exists>s''. storeData processUbx [] 700 700 s' = Returns s''
               \<and> file_calls s'' = [FileWrite (replicate 500 0x55), FileSync]"
    using t(3) by simp
  from s' a1 a2 a4
  have A: "\<exists>s'. storeData processUbx [] 100 100 staged500 = Returns s'
         \<and> file_calls s' = [] \<and> sd_pending s' = replicate 500 0x55
         \<and> (\<exists>s''. storeData processUbx [] 700 700 s' = Returns s''
               \<and> file_calls s'' = [FileWrite (replicate 500 0x55), FileSync])"
    by blast
  from forced_sync_writes_partial_block[OF on inv parsed, where millisA = 700 and millisB = 700
      and frame = "replicate 500 0x55"] fr t
  have B: "\<exists>s'. storeData processUbx [] 700 700 staged500 = Returns s'
         \<and> file_calls s' = [FileWrite (replicate 500 0x55), FileSync]
         \<and> SDpointer s' = 0 \<and> lastDataLogSyncTime s' = 700"
    by (auto simp add: SDpacket_def sd_pending_def)
  obtain u where u: "storeBytes processUbx (ack_frame @ timeutc_frame) logger0 = Returns u"
    and ud: "rb_data (GNSSbuffer u) = timeutc_frame"
    using stream_parsed by blast
  have on0: "settings_logData logger0 \<and> online_microSd logger0 \<and> online_dataLogging logger0"
    by (simp add: logger0_def)
  have inv0: "SDpointer logger0 < SDpacket" by (simp add: logger0_def SDpacket_def)
  have t0: "700 - lastDataLogSyncTime logger0 > 500" "file_calls logger0 = []"
    "SDpointer logger0 = 0" "sd_pending logger0 = []" "length timeutc_frame = 28"
    by (simp_all add: logger0_def sd_pending_def timeutc_frame_def)
  from forced_sync_writes_partial_block[OF on0 inv0 u, where millisA = 700 and millisB = 700 and frame = "[]"]
  obtain w where w: "storeData processUbx (ack_frame @ timeutc_frame) 700 700 logger0 = Returns w"
    and j: "700 - lastDataLogSyncTime logger0 > 500 \<longrightarrow>
            (if SDpointer logger0 + length (rb_data (GNSSbuffer u)) < SDpacket
             then file_calls w =
                    file_calls logger0
                    @ (if 0 < SDpointer logger0 + length (rb_data (GNSSbuffer u))
                       then [FileWrite (sd_pending logger0 @ rb_data (GNSSbuffer u))] else [])
                    @ [FileSync]
             else file_calls w =
                    file_calls logger0
                    @ [FileWrite (sd_pending logger0
                          @ take (SDpacket - SDpointer logger0) (rb_data (GNSSbuffer u))),
                       FileSync])
          \<and> SDpointer w = 0
          \<and> lastDataLogSyncTime w = 700"
    by blast
  from j t0 ud have "file_calls w = [FileWrite timeutc_frame, FileSync]
         \<and> SDpointer w = 0 \<and> lastDataLogSyncTime w = 700"
    by (simp add: SDpacket_def)
  with w
  have C: "\<exists>s'. storeData processUbx (ack_frame @ timeutc_frame) 700 700 logger0 = Returns s'
         \<and> file_calls s' = [FileWrite timeutc_frame, FileSync]
         \<and> SDpointer s' = 0 \<and> lastDataLogSyncTime s' = 700"
    by blast
  from on fr parsed t(1,2) A B C show ?thesis by simp
qed

subsection \<open>Overflow of the staging buffer\<close>

text \<open>
  Claim C2, as amended. When \<open>k + j\<close> bytes (\<open>j > 0\<close>) are offered to a staging
  buffer with room for \<open>k\<close>, the copy loop of \<open>storeData\<close> stores exactly the first
  \<open>k\<close> of them, in order, and the buffer is then full; the other \<open>j\<close> bytes are
  dropped. \<open>storeData\<close> takes no result from \<open>store_char\<close> and keeps no overflow count:
  the result is the one that offering the first \<open>k\<close> bytes alone would have given.
\<close>

theorem append_truncates_silently:
  assumes k: "availableForStore rb = k" and len: "length fr = k + j" and j: "0 < j"
  shows "rb_data (copy_frame fr rb) = rb_data rb @ take k fr
       \<and> available (copy_frame fr rb) = available rb + k
       \<and> availableForStore (copy_frame fr rb) = 0
       \<and> copy_frame fr rb = copy_frame (take k fr) rb"
  using k len j by (auto simp add: copy_frame_eq availableForStore_def available_def)


theorem append_truncates_silently_witness:
  "availableForStore nearly_full = 1 \<and> length timeutc_frame = 1 + 27
   \<and> rb_data (copy_frame timeutc_frame nearly_full) = rb_data nearly_full @ [0xB5]
   \<and> available (copy_frame timeutc_frame nearly_full) = 24576
   \<and> availableForStore (copy_frame timeutc_frame nearly_full) = 0
   \<and> copy_frame timeutc_frame nearly_full = copy_frame [0xB5] nearly_full"
proof -
  have k: "availableForStore nearly_full = 1"
    by (simp add: nearly_full_def availableForStore_def)
  have l: "length timeutc_frame = 1 + 27" by (simp add: timeutc_frame_def)
  have a: "available nearly_full = 24575" by (simp add: nearly_full_def available_def)
  have t: "take 1 timeutc_frame = [0xB5]" by (simp add: timeutc_frame_def)
  have j: "0 < (27 :: nat)" by simp
  note r = append_truncates_silently[OF k l j, unfolded t]
  have c1: "rb_data (copy_frame timeutc_frame nearly_full) = rb_data nearly_full @ [0xB5]"
    using r by blast
  have c2: "available (copy_frame timeutc_frame nearly_full) = 24576"
  proof -
    from r have "available (copy_frame timeutc_frame nearly_full) = available nearly_full + 1"
      by blast
    with a show ?thesis by (simp del: copy_frame.simps)
  qed
  have c3: "copy_frame timeutc_frame nearly_full = copy_frame [0xB5] nearly_full"
    using r by blast
  have c4: "availableForStore (copy_frame timeutc_frame nearly_full) = 0"
    using r by blast
  from k l c1 c2 c3 c4 show ?thesis by blast
qed

lemma recognised_timeutc:
  "recognised processUbx timeutc_frame (parseUbxState logger0, ubxPrivate logger0)
     (UBXbuffer logger0) (UBXpointer logger0) = [(timeutc_frame, 0x01)]"
  by (simp add: timeutc_frame_def logger0_def ubx_checksum_def UBXbufferSize_def
        Let_def upt_conv_Cons numeral_2_eq_2[symmetric] del: upt_Suc)

lemma recognised_eoe:
  "recognised processUbx eoe_frame (parseUbxState logger0, ubxPrivate logger0)
     (UBXbuffer logger0) (UBXpointer logger0) = [(eoe_frame, 0x01)]"
  by (simp add: eoe_frame_def logger0_def ubx_checksum_def UBXbufferSize_def
        Let_def upt_conv_Cons numeral_2_eq_2[symmetric] del: upt_Suc)

text \<open>
  Claim C2 as stated has the append report the truncated count, so that the caller can
  account the \<open>j\<close> lost bytes. It does not. Into a staging buffer with room for one
  byte, the copy of the 28-byte NAV-TIMEUTC frame (\<open>j = 27\<close>) and the copy of the
  12-byte NAV-EOE frame (\<open>j = 11\<close>), both valid frames that are not acknowledgements,
  leave the same buffer behind, one byte longer; and the buffer is all the loop
  produces.
\<close>

theorem overflow_count_not_reported:
  "availableForStore nearly_full = 1
   \<and> length timeutc_frame = 28 \<and> length eoe_frame = 12
   \<and> rb_data (copy_frame timeutc_frame nearly_full) = rb_data nearly_full @ [0xB5]
   \<and> copy_frame timeutc_frame nearly_full = copy_frame eoe_frame nearly_full"
  by (simp add: copy_frame_eq nearly_full_def availableForStore_def timeutc_frame_def
      eoe_frame_def)


subsection \<open>The watchdog handler\<close>

lemma isr_pets: "watchdogCounter w < 10 \<Longrightarrow> am_watchdog_isr w =
   Returns (w\<lparr>wdt_calls := wdt_calls w @ [WdtClear, WdtRestart], watchdogFlag := True,
              watchdogCounter := watchdogCounter w + 1\<rparr>)"
  by (simp add: am_watchdog_isr_def Let_def)

lemma isr_hangs: "\<not> watchdogCounter w < 10 \<Longrightarrow> am_watchdog_isr w =
   Hangs (w\<lparr>wdt_calls := wdt_calls w @ [WdtClear, WdtStop, LedHigh]\<rparr>)"
  by (simp add: am_watchdog_isr_def Let_def)

lemma watchdog_pets:
  "watchdogCounter w + int n \<le> 10 \<Longrightarrow> watchdogInterrupts n w =
   Returns (w\<lparr>wdt_calls := wdt_calls w @ concat (replicate n [WdtClear, WdtRestart]),
      watchdogFlag := (n > 0 \<or> watchdogFlag w), watchdogCounter := watchdogCounter w + int n\<rparr>)"
proof (induction n arbitrary: w)
  case 0
  then show ?case by simp
next
  case (Suc n)
  have lt: "watchdogCounter w < 10" using Suc.prems by simp
  let ?w' = "w\<lparr>wdt_calls := wdt_calls w @ [WdtClear, WdtRestart], watchdogFlag := True,
                watchdogCounter := watchdogCounter w + 1\<rparr>"
  have "watchdogCounter ?w' + int n \<le> 10" using Suc.prems by simp
  from Suc.IH[OF this] show ?case
    by (simp add: isr_pets[OF lt])
qed

lemma watchdogInterrupts_snoc:
  "watchdogInterrupts (Suc n) w =
     (case watchdogInterrupts n w of Hangs w' \<Rightarrow> Hangs w' | Returns w' \<Rightarrow> am_watchdog_isr w')"
proof (induction n arbitrary: w)
  case 0
  show ?case by (simp split: outcome.splits)
next
  case (Suc n)
  show ?case
  proof (cases "am_watchdog_isr w")
    case (Returns w')
    have "watchdogInterrupts (Suc (Suc n)) w = watchdogInterrupts (Suc n) w'"
      using Returns by simp
    also have "\<dots> = (case watchdogInterrupts n w' of Hangs x \<Rightarrow> Hangs x | Returns x \<Rightarrow> am_watchdog_isr x)"
      by (rule Suc.IH)
    also have "watchdogInterrupts n w' = watchdogInterrupts (Suc n) w"
      using Returns by simp
    finally show ?thesis .
  next
    case (Hangs w')
    then show ?thesis by simp
  qed
qed

text \<open>
  Claim C3. From a fault counter of zero, each of the first ten watchdog interrupts
  clears the interrupt, pets the watchdog (\<open>wdt.restart\<close>), raises the flag and
  increments the counter. The eleventh finds the counter at 10: the handler clears the
  interrupt, stops the watchdog (\<open>wdt.stop\<close>), lights the LED and enters
  \<open>while (1);\<close>. It never returns, the counter stays at 10, and no call restarts the
  system.
\<close>

theorem eleventh_watchdog_interrupt_hangs:
  "watchdogInterrupts 10 watchdog0 =
     Returns \<lparr>watchdogFlag = True, watchdogCounter = 10,
              wdt_calls = concat (replicate 10 [WdtClear, WdtRestart])\<rparr>
   \<and> watchdogInterrupts 11 watchdog0 =
     Hangs \<lparr>watchdogFlag = True, watchdogCounter = 10,
            wdt_calls = concat (replicate 10 [WdtClear, WdtRestart]) @ [WdtClear, WdtStop, LedHigh]\<rparr>"
proof -
  have ten: "watchdogInterrupts 10 watchdog0 =
     Returns \<lparr>watchdogFlag = True, watchdogCounter = 10,
              wdt_calls = concat (replicate 10 [WdtClear, WdtRestart])\<rparr>"
    using watchdog_pets[of watchdog0 10] by (simp add: watchdog0_def)
  have "watchdogInterrupts 11 watchdog0 = watchdogInterrupts (Suc 10) watchdog0" by simp
  also have "\<dots> = am_watchdog_isr \<lparr>watchdogFlag = True, watchdogCounter = 10,
              wdt_calls = concat (replicate 10 [WdtClear, WdtRestart])\<rparr>"
    unfolding watchdogInterrupts_snoc ten by simp
  also have "\<dots> = Hangs \<lparr>watchdogFlag = True, watchdogCounter = 10,
            wdt_calls = concat (replicate 10 [WdtClear, WdtRestart]) @ [WdtClear, WdtStop, LedHigh]\<rparr>"
    by (subst isr_hangs) simp_all
  finally show ?thesis using ten by simp
qed


subsection \<open>Re-arming the alarm\<close>

lemma setSleepAlarm_eq:
  "setSleepAlarm clk r =
     r\<lparr>int_alm := False,
       rtc_alarm := \<lparr>f_hour = (f_hour (rtc_now r) + sleepAlarmHours r) mod 24,
                      f_minute = (f_minute (rtc_now r) + sleepAlarmMinutes r) mod 60,
                      f_seconds = 0, f_hundredths = 0,
                      f_dayOfMonth = f_dayOfMonth (rtc_now r), f_month = f_month (rtc_now r)\<rparr>,
       rtc_alarmMode := 5,
       rtc_now := clk,
       hal_calls := hal_calls r @
         [IntClear,
          SetAlarm \<lparr>f_hour = (f_hour (rtc_now r) + sleepAlarmHours r) mod 24,
                     f_minute = (f_minute (rtc_now r) + sleepAlarmMinutes r) mod 60,
                     f_seconds = 0, f_hundredths = 0,
                     f_dayOfMonth = f_dayOfMonth (rtc_now r), f_month = f_month (rtc_now r)\<rparr>,
          SetAlarmMode 5, GetTime, GetAlarm]\<rparr>"
  by (simp add: setSleepAlarm_def am_hal_rtc_int_clear_def rtc_setAlarm_def rtc_setAlarmMode_def
        printDateTime_def printAlarm_def Let_def)

lemma setLoggingAlarm_eq:
  "setLoggingAlarm clk r =
     r\<lparr>int_alm := False,
       rtc_alarm := \<lparr>f_hour = (f_hour (rtc_now r) + loggingAlarmHours r) mod 24,
                      f_minute = (f_minute (rtc_now r) + loggingAlarmMinutes r) mod 60,
                      f_seconds = 0, f_hundredths = 0,
                      f_dayOfMonth = f_dayOfMonth (rtc_now r), f_month = f_month (rtc_now r)\<rparr>,
       rtc_alarmMode := 5,
       rtc_now := clk,
       hal_calls := hal_calls r @
         [IntClear,
          SetAlarm \<lparr>f_hour = (f_hour (rtc_now r) + loggingAlarmHours r) mod 24,
                     f_minute = (f_minute (rtc_now r) + loggingAlarmMinutes r) mod 60,
                     f_seconds = 0, f_hundredths = 0,
                     f_dayOfMonth = f_dayOfMonth (rtc_now r), f_month = f_month (rtc_now r)\<rparr>,
          SetAlarmMode 5, GetTime, GetAlarm]\<rparr>"
  by (simp add: setLoggingAlarm_def am_hal_rtc_int_clear_def rtc_setAlarm_def rtc_setAlarmMode_def
        printDateTime_def printAlarm_def Let_def)

lemma serviceAlarm_idle: "\<not> int_alm r \<Longrightarrow> serviceAlarm fuel r = (0, r)"
  by (cases fuel) simp_all

lemma serviceAlarm_once:
  "int_alm r \<Longrightarrow> serviceAlarm (Suc fuel) r = (1, am_rtc_isr r)"
  by (simp add: serviceAlarm_idle am_rtc_isr_def am_hal_rtc_int_clear_def)

text \<open>
  Claim C8. \<open>setSleepAlarm\<close> and \<open>setLoggingAlarm\<close> first clear the alarm
  interrupt and only then program the alarm: in the calls they make to the peripheral,
  \<open>IntClear\<close> comes first and \<open>SetAlarm\<close> next. Whatever was latched before, no
  alarm interrupt is pending afterwards, so the handler is not run for a stale
  interrupt. Re-arming twice in succession with the same time fields programs the same
  target, leaves no interrupt pending, and when the target is reached the one latched
  interrupt runs the handler exactly once.
\<close>

theorem rearming_clears_latched_alarm_first:
  "(\<exists>rest. hal_calls (setSleepAlarm clk r)
             = hal_calls r @ IntClear # SetAlarm (rtc_alarm (setSleepAlarm clk r)) # rest)
   \<and> (\<exists>rest. hal_calls (setLoggingAlarm clk r)
             = hal_calls r @ IntClear # SetAlarm (rtc_alarm (setLoggingAlarm clk r)) # rest)
   \<and> \<not> int_alm (setSleepAlarm clk r) \<and> \<not> int_alm (setLoggingAlarm clk r)
   \<and> fst (serviceAlarm fuel (setSleepAlarm clk r)) = 0
   \<and> fst (serviceAlarm fuel (setLoggingAlarm clk r)) = 0
   \<and> (f_hour clk = f_hour (rtc_now r) \<and> f_minute clk = f_minute (rtc_now r)
        \<and> f_dayOfMonth clk = f_dayOfMonth (rtc_now r) \<and> f_month clk = f_month (rtc_now r) \<longrightarrow>
         rtc_alarm (setSleepAlarm clk' (setSleepAlarm clk r)) = rtc_alarm (setSleepAlarm clk r)
       \<and> rtc_alarm (setLoggingAlarm clk' (setLoggingAlarm clk r)) = rtc_alarm (setLoggingAlarm clk r)
       \<and> fst (serviceAlarm fuel (setSleepAlarm clk' (setSleepAlarm clk r))) = 0
       \<and> fst (serviceAlarm fuel (setLoggingAlarm clk' (setLoggingAlarm clk r))) = 0
       \<and> fst (serviceAlarm (Suc fuel) (alarmMatch (setSleepAlarm clk' (setSleepAlarm clk r)))) = 1
       \<and> fst (serviceAlarm (Suc fuel) (alarmMatch (setLoggingAlarm clk' (setLoggingAlarm clk r)))) = 1)"
proof -
  have ns: "\<And>c x. \<not> int_alm (setSleepAlarm c x)" by (simp add: setSleepAlarm_eq)
  have nl: "\<And>c x. \<not> int_alm (setLoggingAlarm c x)" by (simp add: setLoggingAlarm_eq)
  have m: "\<And>x. int_alm (alarmMatch x)" by (simp add: alarmMatch_def)
  have a: "\<exists>rest. hal_calls (setSleepAlarm clk r)
             = hal_calls r @ IntClear # SetAlarm (rtc_alarm (setSleepAlarm clk r)) # rest"
    by (simp add: setSleepAlarm_eq)
  have b: "\<exists>rest. hal_calls (setLoggingAlarm clk r)
             = hal_calls r @ IntClear # SetAlarm (rtc_alarm (setLoggingAlarm clk r)) # rest"
    by (simp add: setLoggingAlarm_eq)
  have c: "fst (serviceAlarm fuel (setSleepAlarm clk r)) = 0"
          "fst (serviceAlarm fuel (setLoggingAlarm clk r)) = 0"
          "fst (serviceAlarm fuel (setSleepAlarm clk' (setSleepAlarm clk r))) = 0"
          "fst (serviceAlarm fuel (setLoggingAlarm clk' (setLoggingAlarm clk r))) = 0"
    by (simp_all add: serviceAlarm_idle[OF ns] serviceAlarm_idle[OF nl])
  have d: "fst (serviceAlarm (Suc fuel) (alarmMatch (setSleepAlarm clk' (setSleepAlarm clk r)))) = 1"
          "fst (serviceAlarm (Suc fuel) (alarmMatch (setLoggingAlarm clk' (setLoggingAlarm clk r)))) = 1"
    by (simp_all add: serviceAlarm_once[OF m] del: serviceAlarm.simps)
  have e: "f_hour clk = f_hour (rtc_now r) \<and> f_minute clk = f_minute (rtc_now r)
        \<and> f_dayOfMonth clk = f_dayOfMonth (rtc_now r) \<and> f_month clk = f_month (rtc_now r) \<Longrightarrow>
         rtc_alarm (setSleepAlarm clk' (setSleepAlarm clk r)) = rtc_alarm (setSleepAlarm clk r)
       \<and> rtc_alarm (setLoggingAlarm clk' (setLoggingAlarm clk r)) = rtc_alarm (setLoggingAlarm clk r)"
    by (simp add: setSleepAlarm_eq setLoggingAlarm_eq)
  from a b ns nl c d e show ?thesis by blast
qed

theorem rearming_clears_latched_alarm_first_witness:
  "int_alm rtc_stale
   \<and> fst (serviceAlarm 1 rtc_stale) = 1
   \<and> f_hour clock_1234 = f_hour (rtc_now rtc_stale)
   \<and> f_minute clock_1234 = f_minute (rtc_now rtc_stale)
   \<and> rtc_alarm (setSleepAlarm clock_1234 rtc_stale)
        = \<lparr>f_hour = 12, f_minute = 34, f_seconds = 0, f_hundredths = 0,
            f_dayOfMonth = 10, f_month = 3\<rparr>
   \<and> rtc_alarm (setSleepAlarm clock_1234 (setSleepAlarm clock_1234 rtc_stale))
        = rtc_alarm (setSleepAlarm clock_1234 rtc_stale)
   \<and> fst (serviceAlarm 1 (setSleepAlarm clock_1234 (setSleepAlarm clock_1234 rtc_stale))) = 0
   \<and> fst (serviceAlarm 2 (alarmMatch (setSleepAlarm clock_1234 (setSleepAlarm clock_1234 rtc_stale)))) = 1"
proof -
  have s: "int_alm rtc_stale" "fst (serviceAlarm 1 rtc_stale) = 1"
    by (simp_all add: rtc_stale_def am_rtc_isr_def am_hal_rtc_int_clear_def)
  have h: "f_hour clock_1234 = f_hour (rtc_now rtc_stale) \<and> f_minute clock_1234 = f_minute (rtc_now rtc_stale)
        \<and> f_dayOfMonth clock_1234 = f_dayOfMonth (rtc_now rtc_stale)
        \<and> f_month clock_1234 = f_month (rtc_now rtc_stale)"
    by (simp add: rtc_stale_def)
  have al: "rtc_alarm (setSleepAlarm clock_1234 rtc_stale)
        = \<lparr>f_hour = 12, f_minute = 34, f_seconds = 0, f_hundredths = 0,
            f_dayOfMonth = 10, f_month = 3\<rparr>"
    by (simp add: setSleepAlarm_eq rtc_stale_def clock_1234_def)
  have two: "Suc (Suc 0) = 2" by simp
  from rearming_clears_latched_alarm_first[where clk = clock_1234 and clk' = clock_1234
      and r = rtc_stale and fuel = 1] h
  have "rtc_alarm (setSleepAlarm clock_1234 (setSleepAlarm clock_1234 rtc_stale))
        = rtc_alarm (setSleepAlarm clock_1234 rtc_stale)"
    and "fst (serviceAlarm 1 (setSleepAlarm clock_1234 (setSleepAlarm clock_1234 rtc_stale))) = 0"
    and "fst (serviceAlarm (Suc 1) (alarmMatch (setSleepAlarm clock_1234 (setSleepAlarm clock_1234 rtc_stale)))) = 1"
    by blast+
  with s h al show ?thesis by (simp add: numeral_2_eq_2)
qed

end
